theory Spec2Isabelle
  imports Complex_Main "HOL-Library.Sublist"
begin

section \<open>Conventions of the embedding\<close>

text \<open>
  The development embeds the geometry and animation core of the WarGames map display:
  the C++ front end (\<^verbatim>\<open>wargames_cpp\<close>) and the browser front end (\<^verbatim>\<open>wargames_web\<close>).

  \<^item> Every \<^verbatim>\<open>float\<close>, \<^verbatim>\<open>double\<close>, GLSL \<^verbatim>\<open>float\<close> and JavaScript number is modelled as
    a \<^typ>\<open>real\<close>: the theorems are about the arithmetic the code writes down, not about
    IEEE rounding, infinities or NaN. Where the code divides and the divisor can be zero,
    the theorem carries the hypothesis that makes the divisor non-zero, or the model
    returns an error value. The one exception is the projection of the browser front end,
    which is also given with the rounding of double arithmetic, since the statement about
    it compares two ways of computing the same number.
  \<^item> A C++ \<^verbatim>\<open>int\<close> is an \<^typ>\<open>int\<close> (no theorem depends on overflow), a \<^verbatim>\<open>size_t\<close> a
    \<^typ>\<open>nat\<close>.
  \<^item> A \<^verbatim>\<open>std::vector\<close> or a JavaScript array is a list; a method that mutates its object
    returns the updated record; a method that issues draw calls returns the list of the
    calls, in issue order.
  \<^item> Record fields carry a short prefix (\<open>p_x\<close> for \<^verbatim>\<open>Point::x\<close>, \<open>m_progress\<close> for
    \<^verbatim>\<open>Missile::m_progress\<close>, \<open>e_age\<close> for \<^verbatim>\<open>Explosion::m_age\<close>, \<open>a_progress\<close> for
    \<^verbatim>\<open>Aircraft::m_progress\<close>), since the classes of the source reuse field names.
\<close>

chapter \<open>The embedding\<close>

section \<open>Common.hpp\<close>

definition SCREEN_WIDTH :: int where
  "SCREEN_WIDTH = 1920"

definition SCREEN_HEIGHT :: int where
  "SCREEN_HEIGHT = 1080"

record Color =
  c_r :: real
  c_g :: real
  c_b :: real
  c_a :: real

definition CYAN :: Color where
  "CYAN = \<lparr>c_r = 0, c_g = 1, c_b = 1, c_a = 1\<rparr>"

record Point =
  p_x :: real
  p_y :: real

record LatLon =
  ll_lat :: real
  ll_lon :: real

text \<open>\<^verbatim>\<open>lonlat_to_xy(lon, lat, width, height)\<close>: the global equirectangular projection.\<close>

definition lonlat_to_xy :: "real \<Rightarrow> real \<Rightarrow> int \<Rightarrow> int \<Rightarrow> Point" where
  "lonlat_to_xy lon lat width height =
     \<lparr>p_x = (lon + 180) / 360 * real_of_int width,
      p_y = (90 - lat) / 180 * real_of_int height\<rparr>"


section \<open>VectorMap.cpp: splitting a polyline at the antimeridian\<close>

record LineSegment =
  seg_points :: "Point list"
  seg_color :: Color

text \<open>\<^verbatim>\<open>VectorMap::crossesAntimeridian\<close>: \<^verbatim>\<open>dx > SCREEN_WIDTH * 0.5f\<close>, a strict comparison.\<close>

definition crossesAntimeridian :: "Point \<Rightarrow> Point \<Rightarrow> bool" where
  "crossesAntimeridian p1 p2 =
     (let dx = \<bar>p_x p2 - p_x p1\<bar> in dx > real_of_int SCREEN_WIDTH * 0.5)"

text \<open>
  \<^verbatim>\<open>if (currentSegment.size() > 1) output.push_back({currentSegment, color});\<close>, the guard
  that the loop and the final save share.
\<close>

definition push_segment :: "Point list \<Rightarrow> Color \<Rightarrow> LineSegment list \<Rightarrow> LineSegment list" where
  "push_segment currentSegment color output =
     (if length currentSegment > 1
      then output @ [\<lparr>seg_points = currentSegment, seg_color = color\<rparr>]
      else output)"

text \<open>
  The \<^verbatim>\<open>for\<close> loop of \<^verbatim>\<open>VectorMap::splitAtAntimeridian\<close> from index \<open>i\<close> on: \<open>prev\<close> is
  \<^verbatim>\<open>points[i-1]\<close>, the list argument holds \<^verbatim>\<open>points[i..]\<close>. When the points are used up
  the final segment is saved.
\<close>

fun split_loop :: "Color \<Rightarrow> Point \<Rightarrow> Point list \<Rightarrow> Point list \<Rightarrow> LineSegment list \<Rightarrow> LineSegment list" where
  "split_loop color prev [] currentSegment output = push_segment currentSegment color output"
| "split_loop color prev (p # ps) currentSegment output =
     (if crossesAntimeridian prev p
      then split_loop color p ps [p] (push_segment currentSegment color output)
      else split_loop color p ps (currentSegment @ [p]) output)"

text \<open>
  \<^verbatim>\<open>VectorMap::splitAtAntimeridian(points, output, color)\<close>: the segments are appended to
  \<open>output\<close>, which is returned.
\<close>

definition splitAtAntimeridian :: "Point list \<Rightarrow> LineSegment list \<Rightarrow> Color \<Rightarrow> LineSegment list" where
  "splitAtAntimeridian points output color =
     (case points of
        [] \<Rightarrow> output
      | p0 # ps \<Rightarrow> split_loop color p0 ps [p0] output)"

text \<open>
  Vocabulary of the specification: the number of crossing pairs of a polyline (pairs of
  consecutive points that \<^const>\<open>crossesAntimeridian\<close> accepts), and the index of the second
  point of its first crossing pair.
\<close>

fun crossings :: "Point list \<Rightarrow> nat" where
  "crossings (p # q # ps) = (if crossesAntimeridian p q then 1 else 0) + crossings (q # ps)"
| "crossings _ = 0"

fun cross_at :: "Point list \<Rightarrow> nat" where
  "cross_at (p # q # ps) = (if crossesAntimeridian p q then 1 else Suc (cross_at (q # ps)))"
| "cross_at _ = 0"

section \<open>Renderer.cpp: layered glow drawing\<close>

text \<open>
  A call of one of the primitives \<^verbatim>\<open>drawLine\<close>, \<^verbatim>\<open>drawCircle\<close>, \<^verbatim>\<open>drawPath\<close>, with its
  colour and line width. (\<^verbatim>\<open>drawPath\<close> itself returns without drawing when it is handed
  fewer than two points.)
\<close>

datatype draw_call =
    DrawLine real real real real Color real
  | DrawCircle real real real Color real
  | DrawPath "Point list" Color real

text \<open>
  The loop \<^verbatim>\<open>for (int i = layers - 1; i >= 0; i--)\<close> that \<^verbatim>\<open>drawLineWithGlow\<close>,
  \<^verbatim>\<open>drawCircleWithGlow\<close> and \<^verbatim>\<open>drawPathWithGlow\<close> each contain, word for word; \<open>prim\<close> is
  the primitive the body calls with \<^verbatim>\<open>layerColor\<close> and \<^verbatim>\<open>layerWidth\<close>.
\<close>

function glow_loop :: "(Color \<Rightarrow> real \<Rightarrow> draw_call) \<Rightarrow> Color \<Rightarrow> int \<Rightarrow> int \<Rightarrow> draw_call list" where
  "glow_loop prim color layers i =
     (if i \<ge> 0 then
        (let layerAlpha = (if i = 0 then 1 else 0.3 / real_of_int layers);
             layerWidth = 1 + real_of_int (layers - i) * 0.8;
             layerColor = \<lparr>c_r = c_r color, c_g = c_g color, c_b = c_b color,
                            c_a = c_a color * layerAlpha\<rparr>
         in prim layerColor layerWidth # glow_loop prim color layers (i - 1))
      else [])"
  by pat_completeness auto
termination
  by (relation "measure (\<lambda>(prim, color, layers, i). nat (i + 1))") auto

declare glow_loop.simps [simp del]

definition drawLineWithGlow :: "real \<Rightarrow> real \<Rightarrow> real \<Rightarrow> real \<Rightarrow> Color \<Rightarrow> int \<Rightarrow> draw_call list" where
  "drawLineWithGlow x1 y1 x2 y2 color layers =
     glow_loop (\<lambda>layerColor layerWidth. DrawLine x1 y1 x2 y2 layerColor layerWidth)
       color layers (layers - 1)"

definition drawCircleWithGlow :: "real \<Rightarrow> real \<Rightarrow> real \<Rightarrow> Color \<Rightarrow> int \<Rightarrow> draw_call list" where
  "drawCircleWithGlow x y radius color layers =
     glow_loop (\<lambda>layerColor layerWidth. DrawCircle x y radius layerColor layerWidth)
       color layers (layers - 1)"

definition drawPathWithGlow :: "Point list \<Rightarrow> Color \<Rightarrow> int \<Rightarrow> draw_call list" where
  "drawPathWithGlow points color layers =
     glow_loop (\<lambda>layerColor layerWidth. DrawPath points layerColor layerWidth)
       color layers (layers - 1)"

section \<open>Missile.hpp, Missile.cpp\<close>

text \<open>
  \<^verbatim>\<open>SubmarineMissile\<close> overrides \<^verbatim>\<open>draw\<close> only; \<^verbatim>\<open>update\<close>, \<^verbatim>\<open>isFinished\<close> and
  \<^verbatim>\<open>getPosition\<close> are those of \<^verbatim>\<open>Missile\<close>, so one record serves both.
\<close>

record Missile =
  m_path :: "Point list"
  m_basePos :: Point
  m_color :: Color
  m_progress :: real
  m_duration :: real

text \<open>
  The geodesic library (GeographicLib) is not part of the repository. Its two entry points
  are parameters of the model: \<open>geodInverse start endp\<close> stands for \<^verbatim>\<open>geod.Inverse\<close> and
  yields \<open>(s12, azi1)\<close>; \<open>linePosition start azi1 s\<close> stands for \<^verbatim>\<open>geod.Line(start, azi1).Position(s)\<close>
  and yields the coordinate at distance \<open>s\<close>.
\<close>

type_synonym geod_inverse = "LatLon \<Rightarrow> LatLon \<Rightarrow> real \<times> real"
type_synonym geod_position = "LatLon \<Rightarrow> real \<Rightarrow> real \<Rightarrow> LatLon"

datatype path_error = LengthError | NotANumber

text \<open>
  \<^verbatim>\<open>Missile::calculatePath(start, end, samples)\<close>, returning the new \<^verbatim>\<open>m_path\<close>.
  \<^verbatim>\<open>m_path.reserve(samples)\<close> throws \<^verbatim>\<open>std::length_error\<close> for a negative \<^verbatim>\<open>samples\<close>. With
  \<^verbatim>\<open>samples == 1\<close> the quotient \<^verbatim>\<open>i / (samples - 1)\<close> is \<^verbatim>\<open>0.0 / 0\<close>, a NaN that poisons the
  only point of the path: the model returns \<^const>\<open>NotANumber\<close> there.
\<close>

definition calculatePath ::
  "geod_inverse \<Rightarrow> geod_position \<Rightarrow> LatLon \<Rightarrow> LatLon \<Rightarrow> int \<Rightarrow> path_error + Point list" where
  "calculatePath geodInverse linePosition start endp samples =
     (let (s12, azi1) = geodInverse start endp in
      if samples < 0 then Inl LengthError
      else if samples = 1 then Inl NotANumber
      else Inr (map (\<lambda>i. let t = real i / real_of_int (samples - 1);
                              c = linePosition start azi1 (t * s12)
                          in lonlat_to_xy (ll_lon c) (ll_lat c) SCREEN_WIDTH SCREEN_HEIGHT)
                    [0..<nat samples]))"

text \<open>The constructor, given the path that \<^const>\<open>calculatePath\<close> produced.\<close>

definition Missile_ctor :: "Point list \<Rightarrow> LatLon \<Rightarrow> Color \<Rightarrow> Missile" where
  "Missile_ctor path start color =
     \<lparr>m_path = path,
      m_basePos = lonlat_to_xy (ll_lon start) (ll_lat start) SCREEN_WIDTH SCREEN_HEIGHT,
      m_color = color, m_progress = 0, m_duration = 12\<rparr>"

definition Missile_update :: "real \<Rightarrow> Missile \<Rightarrow> Missile" where
  "Missile_update dt m =
     (let progress = m_progress m + dt / m_duration m
      in m\<lparr>m_progress := (if progress > 1 then 1 else progress)\<rparr>)"

definition Missile_isFinished :: "Missile \<Rightarrow> bool" where
  "Missile_isFinished m = (m_progress m \<ge> 1)"


section \<open>Explosion.hpp, Explosion.cpp\<close>

record Explosion =
  e_x :: real
  e_y :: real
  e_color :: Color
  e_age :: real
  e_duration :: real

definition NUM_RINGS :: nat where
  "NUM_RINGS = 4"

definition RING_DELAYS :: "real list" where
  "RING_DELAYS = [0.0, 0.3, 0.6, 0.9]"

definition Explosion_ctor :: "real \<Rightarrow> real \<Rightarrow> Color \<Rightarrow> Explosion" where
  "Explosion_ctor x y color = \<lparr>e_x = x, e_y = y, e_color = color, e_age = 0, e_duration = 2.5\<rparr>"

definition Explosion_update :: "real \<Rightarrow> Explosion \<Rightarrow> Explosion" where
  "Explosion_update dt e = e\<lparr>e_age := e_age e + dt\<rparr>"

definition Explosion_isFinished :: "Explosion \<Rightarrow> bool" where
  "Explosion_isFinished e = (e_age e \<ge> e_duration e)"

text \<open>
  One iteration of the ring loop of \<^verbatim>\<open>Explosion::draw\<close>: the draw calls of ring \<open>i\<close>, none
  when the iteration \<^verbatim>\<open>continue\<close>s. \<^verbatim>\<open>ringDuration\<close> is computed once, before the loop, from
  the delay of the last ring.
\<close>

definition ring_draw :: "Explosion \<Rightarrow> nat \<Rightarrow> draw_call list" where
  "ring_draw e i =
     (let maxRadius = 50;
          ringDuration = e_duration e - RING_DELAYS ! (NUM_RINGS - 1);
          ringAge = e_age e - RING_DELAYS ! i
      in if ringAge < 0 then []
         else
           (let t = ringAge / ringDuration
            in if t > 1 then []
               else
                 (let radius = t * maxRadius;
                      alpha = 1 - t;
                      ringColor = \<lparr>c_r = c_r (e_color e), c_g = c_g (e_color e),
                                    c_b = c_b (e_color e), c_a = alpha * c_a (e_color e)\<rparr>
                  in drawCircleWithGlow (e_x e) (e_y e) radius ringColor 4)))"

definition Explosion_draw :: "Explosion \<Rightarrow> draw_call list" where
  "Explosion_draw e =
     concat (map (ring_draw e) [0..<NUM_RINGS]) @
     (if e_age e < 0.5
      then (let flashAlpha = 1 - e_age e / 0.5;
                flashRadius = 5 + e_age e * 10;
                flashColor = \<lparr>c_r = c_r (e_color e), c_g = c_g (e_color e),
                               c_b = c_b (e_color e), c_a = flashAlpha\<rparr>
            in drawCircleWithGlow (e_x e) (e_y e) flashRadius flashColor 5)
      else [])"

section \<open>Aircraft.hpp, Aircraft.cpp\<close>

record Aircraft =
  a_path :: "Point list"
  a_color :: Color
  a_progress :: real
  a_duration :: real
  a_trailLength :: int

definition Aircraft_update :: "real \<Rightarrow> Aircraft \<Rightarrow> Aircraft" where
  "Aircraft_update dt ac =
     (if a_duration ac \<le> 0 \<or> a_path ac = [] then ac
      else
        (let progress = a_progress ac + dt / a_duration ac
         in ac\<lparr>a_progress :=
                 (if progress \<ge> 1 then progress - real_of_int \<lfloor>progress\<rfloor> else progress)\<rparr>))"

section \<open>main.cpp: the entity phase of the main loop\<close>





section \<open>utils.js: projection and viewport test\<close>

record Viewport =
  centerLon :: real
  centerLat :: real
  zoom :: real

text \<open>
  \<^verbatim>\<open>lonLatToXY(lon, lat, width, height, viewport = null)\<close>. \<^verbatim>\<open>zoom || 1.0\<close> replaces a zoom
  of \<open>0\<close> by \<open>1\<close>.
\<close>

definition lonLatToXY :: "real \<Rightarrow> real \<Rightarrow> real \<Rightarrow> real \<Rightarrow> Viewport option \<Rightarrow> Point" where
  "lonLatToXY lon lat width height viewport =
     (case viewport of
        Some vp \<Rightarrow>
          (let zoomLevel = (if zoom vp = 0 then 1 else zoom vp);
               viewRangeX = 360 / zoomLevel;
               viewRangeY = 180 / zoomLevel;
               relLon = lon - centerLon vp;
               relLat = lat - centerLat vp;
               normX = relLon / (viewRangeX / 2);
               normY = relLat / (viewRangeY / 2);
               x = ((normX + 1) / 2) * width;
               y = ((1 - normY) / 2) * height
           in \<lparr>p_x = x, p_y = y\<rparr>)
      | None \<Rightarrow>
          (let x = ((lon + 180) / 360) * width;
               y = ((90 - lat) / 180) * height
           in \<lparr>p_x = x, p_y = y\<rparr>))"

text \<open>
  Double arithmetic. A JavaScript number is an IEEE 754 binary64 value, and an arithmetic
  operation returns the exact result rounded to the nearest such value, a tie going to the
  value with the even significand. \<open>round_half_even\<close> rounds a real to the nearest integer
  in that manner; \<open>binary64 x\<close> rounds the real \<open>x\<close> to 53 significant bits: \<open>e\<close> is the
  binary exponent of \<open>x\<close> and \<open>ulp = 2 ^ (e - 52)\<close> the distance between neighbouring
  doubles of that exponent. The exponent is not bounded: overflow, the subnormal numbers,
  infinities and NaN are not modelled.
\<close>

definition round_half_even :: "real \<Rightarrow> int" where
  "round_half_even y =
     (let f = \<lfloor>y\<rfloor>; r = y - of_int f
      in if r < 1 / 2 then f else if r > 1 / 2 then f + 1 else if even f then f else f + 1)"

text \<open>
  \<open>binary_exponent x\<close> is, for a positive \<open>x\<close>, the integer \<open>e\<close> with \<open>2 ^ e \<le> x < 2 ^ (e + 1)\<close>,
  and \<open>pow2 e\<close> is \<open>2 ^ e\<close> for an integer \<open>e\<close> of either sign.
\<close>

function binary_exponent :: "real \<Rightarrow> int" where
  "binary_exponent x =
     (if x \<le> 0 then 0
      else if 2 \<le> x then binary_exponent (x / 2) + 1
      else if x < 1 then binary_exponent (2 * x) - 1
      else 0)"
  by pat_completeness auto
termination
proof (relation "measure (\<lambda>x. if 1 \<le> x then nat \<lfloor>x\<rfloor> else nat \<lceil>1 / x\<rceil>)")
  show "wf (measure (\<lambda>x::real. if 1 \<le> x then nat \<lfloor>x\<rfloor> else nat \<lceil>1 / x\<rceil>))" by simp
next
  fix x :: real
  assume "\<not> x \<le> 0" and x: "2 \<le> x"
  have "\<lfloor>x / 2\<rfloor> \<le> \<lfloor>x - 1\<rfloor>" using x by (intro floor_mono) simp
  hence "\<lfloor>x / 2\<rfloor> < \<lfloor>x\<rfloor>" by simp
  moreover have "0 \<le> \<lfloor>x / 2\<rfloor>" using x by simp
  ultimately show "(x / 2, x) \<in> measure (\<lambda>x. if 1 \<le> x then nat \<lfloor>x\<rfloor> else nat \<lceil>1 / x\<rceil>)"
    using x by simp
next
  fix x :: real
  assume pos: "\<not> x \<le> 0" and "\<not> 2 \<le> x" and x: "x < 1"
  show "(2 * x, x) \<in> measure (\<lambda>x. if 1 \<le> x then nat \<lfloor>x\<rfloor> else nat \<lceil>1 / x\<rceil>)"
  proof (cases "1 \<le> 2 * x")
    case True
    hence "\<lfloor>2 * x\<rfloor> = 1" using x by linarith
    moreover have "1 < 1 / x" using pos x by simp
    hence "2 \<le> \<lceil>1 / x\<rceil>" by linarith
    ultimately show ?thesis using True x by simp
  next
    case False
    have "2 \<le> 1 / x" using pos False by (simp add: field_simps)
    hence "1 / (2 * x) \<le> 1 / x - 1" using pos by (simp add: field_simps)
    hence "\<lceil>1 / (2 * x)\<rceil> \<le> \<lceil>1 / x - 1\<rceil>" by (rule ceiling_mono)
    hence "\<lceil>1 / (2 * x)\<rceil> < \<lceil>1 / x\<rceil>" by simp
    moreover have "0 < \<lceil>1 / (2 * x)\<rceil>" using pos by simp
    ultimately show ?thesis using False x by simp
  qed
qed

declare binary_exponent.simps [simp del]

definition pow2 :: "int \<Rightarrow> real" where
  "pow2 e = (if 0 \<le> e then 2 ^ nat e else 1 / 2 ^ nat (- e))"

definition binary64 :: "real \<Rightarrow> real" where
  "binary64 x =
     (if x = 0 then 0
      else (let e = binary_exponent \<bar>x\<bar>; ulp = pow2 (e - 52)
            in of_int (round_half_even (x / ulp)) * ulp))"

text \<open>
  \<^verbatim>\<open>lonLatToXY\<close> once more, with the rounding explicit: \<open>fl\<close> is applied to the result of
  every arithmetic operation of the source, in the order in which JavaScript evaluates
  them. With \<^const>\<open>binary64\<close> for \<open>fl\<close> this is the function as it runs; with the identity
  it is \<^const>\<open>lonLatToXY\<close>.
\<close>

definition lonLatToXY_fl ::
  "(real \<Rightarrow> real) \<Rightarrow> real \<Rightarrow> real \<Rightarrow> real \<Rightarrow> real \<Rightarrow> Viewport option \<Rightarrow> Point" where
  "lonLatToXY_fl fl lon lat width height viewport =
     (case viewport of
        Some vp \<Rightarrow>
          (let zoomLevel = (if zoom vp = 0 then 1 else zoom vp);
               viewRangeX = fl (360 / zoomLevel);
               viewRangeY = fl (180 / zoomLevel);
               relLon = fl (lon - centerLon vp);
               relLat = fl (lat - centerLat vp);
               normX = fl (relLon / fl (viewRangeX / 2));
               normY = fl (relLat / fl (viewRangeY / 2));
               x = fl (fl (fl (normX + 1) / 2) * width);
               y = fl (fl (fl (1 - normY) / 2) * height)
           in \<lparr>p_x = x, p_y = y\<rparr>)
      | None \<Rightarrow>
          (let x = fl (fl (fl (lon + 180) / 360) * width);
               y = fl (fl (fl (90 - lat) / 180) * height)
           in \<lparr>p_x = x, p_y = y\<rparr>))"

definition isInViewport :: "real \<Rightarrow> real \<Rightarrow> Viewport option \<Rightarrow> bool" where
  "isInViewport lon lat viewport =
     (case viewport of
        None \<Rightarrow> True
      | Some vp \<Rightarrow>
          (let halfWidth = 180 / (if zoom vp = 0 then 1 else zoom vp);
               halfHeight = 90 / (if zoom vp = 0 then 1 else zoom vp)
           in lon \<ge> centerLon vp - halfWidth \<and> lon \<le> centerLon vp + halfWidth \<and>
              lat \<ge> centerLat vp - halfHeight \<and> lat \<le> centerLat vp + halfHeight))"

section \<open>Missile.js\<close>

text \<open>
  The browser missile. The path comes from \<^verbatim>\<open>turf.greatCircle\<close>, a library outside the
  repository, and is a field the model does not interpret. \<^verbatim>\<open>exploded\<close> is a property
  that the constructor does not set: it reads as \<^verbatim>\<open>undefined\<close>, which \<^verbatim>\<open>!missile.exploded\<close>
  treats as false, until \<^verbatim>\<open>SimulationState.update\<close> sets it.
\<close>

record WMissile =
  wm_start :: LatLon
  wm_target :: LatLon
  wm_duration :: real
  wm_progress :: real
  wm_finished :: bool
  wm_path :: "LatLon list"
  wm_exploded :: bool

text \<open>
  \<^verbatim>\<open>constructor(start, target, duration = 12.0)\<close>, given the path that \<^verbatim>\<open>calculatePath\<close>
  obtained; every caller leaves the duration at its default.
\<close>

definition WMissile_ctor :: "LatLon \<Rightarrow> LatLon \<Rightarrow> real \<Rightarrow> LatLon list \<Rightarrow> WMissile" where
  "WMissile_ctor start target duration path =
     \<lparr>wm_start = start, wm_target = target, wm_duration = duration, wm_progress = 0,
      wm_finished = False, wm_path = path, wm_exploded = False\<rparr>"

definition WMissile_update :: "real \<Rightarrow> WMissile \<Rightarrow> WMissile" where
  "WMissile_update deltaTime m =
     (if wm_finished m then m
      else
        (let progress = wm_progress m + deltaTime / wm_duration m
         in if progress \<ge> 1 then m\<lparr>wm_progress := 1, wm_finished := True\<rparr>
            else m\<lparr>wm_progress := progress\<rparr>))"

text \<open>
  Observers for statements about sequences of updates: the states of a missile after each
  of the updates \<open>dts\<close>, in order.
\<close>

fun Missile_run :: "Missile \<Rightarrow> real list \<Rightarrow> Missile list" where
  "Missile_run m [] = []"
| "Missile_run m (dt # dts) = Missile_update dt m # Missile_run (Missile_update dt m) dts"

fun WMissile_run :: "WMissile \<Rightarrow> real list \<Rightarrow> WMissile list" where
  "WMissile_run m [] = []"
| "WMissile_run m (dt # dts) = WMissile_update dt m # WMissile_run (WMissile_update dt m) dts"

section \<open>Explosion.js\<close>

record Ring =
  ring_delay :: real
  ring_maxRadius :: real

record WExplosion =
  we_lat :: real
  we_lon :: real
  we_startTime :: real
  we_duration :: real
  we_finished :: bool
  we_rings :: "Ring list"



text \<open>A call \<^verbatim>\<open>renderer.drawCircle(x, y, radius, color, segments)\<close> of the browser renderer.\<close>

datatype web_call = WDrawCircle real real real Color nat

definition RED :: Color where
  "RED = \<lparr>c_r = 1.0, c_g = 0.196, c_b = 0.196, c_a = 1.0\<rparr>"

text \<open>The body of the ring loop of \<^verbatim>\<open>Explosion.render\<close>, for one ring.\<close>

definition ring_render :: "Point \<Rightarrow> real \<Rightarrow> real \<Rightarrow> Ring \<Rightarrow> web_call list" where
  "ring_render centerPos elapsed duration ring =
     (let ringElapsed = elapsed - ring_delay ring
      in if ringElapsed < 0 then []
         else if ringElapsed > duration - ring_delay ring then []
         else
           (let ringProgress = ringElapsed / (duration - ring_delay ring);
                radius = ringProgress * ring_maxRadius ring;
                alpha = 1 - ringProgress
            in [WDrawCircle (p_x centerPos) (p_y centerPos) (radius + 4) (RED\<lparr>c_a := alpha * 0.2\<rparr>) 32,
                WDrawCircle (p_x centerPos) (p_y centerPos) (radius + 2) (RED\<lparr>c_a := alpha * 0.5\<rparr>) 32,
                WDrawCircle (p_x centerPos) (p_y centerPos) radius (RED\<lparr>c_a := alpha * 0.8\<rparr>) 32] @
               (if ringElapsed < 0.3
                then (let flashAlpha = (1 - ringElapsed / 0.3) * 0.6
                      in [WDrawCircle (p_x centerPos) (p_y centerPos) 10
                            \<lparr>c_r = 1.0, c_g = 1.0, c_b = 1.0, c_a = flashAlpha\<rparr> 16])
                else [])))"

text \<open>
  \<^verbatim>\<open>Explosion.render(renderer, currentTime, viewport)\<close>; \<open>width\<close> and \<open>height\<close> are those of
  the renderer's canvas.
\<close>

definition WExplosion_render :: "WExplosion \<Rightarrow> real \<Rightarrow> real \<Rightarrow> real \<Rightarrow> Viewport option \<Rightarrow> web_call list" where
  "WExplosion_render e width height currentTime viewport =
     (if viewport = None \<or> isInViewport (we_lon e) (we_lat e) viewport
      then
        (let elapsed = currentTime - we_startTime e;
             centerPos = lonLatToXY (we_lon e) (we_lat e) width height viewport
         in concat (map (ring_render centerPos elapsed (we_duration e)) (we_rings e)))
      else [])"

section \<open>SimulationState.js\<close>







section \<open>composite.frag\<close>

text \<open>
  A \<^verbatim>\<open>vec4\<close> as a record of its four components, a \<^verbatim>\<open>vec2\<close> as a pair, a \<^verbatim>\<open>sampler2D\<close>
  with \<^verbatim>\<open>texture(sampler, uv)\<close> as a function from \<^verbatim>\<open>vec2\<close> to \<^verbatim>\<open>vec4\<close>.
\<close>

record vec4 =
  v_r :: real
  v_g :: real
  v_b :: real
  v_a :: real

type_synonym vec2 = "real \<times> real"
type_synonym sampler2D = "vec2 \<Rightarrow> vec4"

text \<open>\<^verbatim>\<open>fract(sin(dot(co.xy, vec2(12.9898, 78.233))) * 43758.5453)\<close>\<close>

definition rand :: "vec2 \<Rightarrow> real" where
  "rand co = frac (sin (fst co * 12.9898 + snd co * 78.233) * 43758.5453)"

text \<open>GLSL \<^verbatim>\<open>mix(x, y, a) = x * (1 - a) + y * a\<close>, on one component.\<close>

definition mix :: "real \<Rightarrow> real \<Rightarrow> real \<Rightarrow> real" where
  "mix x y a = x * (1 - a) + y * a"

text \<open>
  \<^verbatim>\<open>main()\<close> of the composite fragment shader (the C++ and the browser version are the same
  program up to the names of the uniforms): the value written to \<^verbatim>\<open>FragColor\<close>.
\<close>

definition composite_main ::
  "sampler2D \<Rightarrow> sampler2D \<Rightarrow> sampler2D \<Rightarrow> sampler2D \<Rightarrow> real \<Rightarrow> real \<Rightarrow> real \<Rightarrow> real \<Rightarrow> vec2 \<Rightarrow> vec4" where
  "composite_main screenTexture bloomTexture scanlineTexture vignetteTexture
       noiseIntensity bloomIntensity flickerIntensity time TexCoord =
     (let color0 = screenTexture TexCoord;
          bloom = bloomTexture TexCoord;
          color1 = \<lparr>v_r = v_r color0 + v_r bloom * bloomIntensity,
                    v_g = v_g color0 + v_g bloom * bloomIntensity,
                    v_b = v_b color0 + v_b bloom * bloomIntensity,
                    v_a = v_a color0 + v_a bloom * bloomIntensity\<rparr>;
          scanline = scanlineTexture TexCoord;
          color2 = \<lparr>v_r = v_r color1 * mix 1 (v_r scanline) 0.5,
                    v_g = v_g color1 * mix 1 (v_g scanline) 0.5,
                    v_b = v_b color1 * mix 1 (v_b scanline) 0.5,
                    v_a = v_a color1 * mix 1 (v_a scanline) 0.5\<rparr>;
          vignette = vignetteTexture TexCoord;
          color3 = \<lparr>v_r = v_r color2 * v_r vignette,
                    v_g = v_g color2 * v_g vignette,
                    v_b = v_b color2 * v_b vignette,
                    v_a = v_a color2 * v_a vignette\<rparr>;
          noise = rand (fst TexCoord + time, snd TexCoord + time) * noiseIntensity;
          color4 = color3\<lparr>v_r := v_r color3 + noise, v_g := v_g color3 + noise,
                          v_b := v_b color3 + noise\<rparr>;
          flicker = 1 + sin (time * 120) * flickerIntensity
                      + sin (time * 67) * flickerIntensity * 0.5
      in color4\<lparr>v_r := v_r color4 * flicker, v_g := v_g color4 * flicker,
                v_b := v_b color4 * flicker\<rparr>)"

text \<open>
  The composite as the specification words it (section 4.6), on one colour component: the
  scanline sample multiplies the colour directly.
\<close>

definition composite_spec ::
  "real \<Rightarrow> real \<Rightarrow> real \<Rightarrow> real \<Rightarrow> real \<Rightarrow> real \<Rightarrow> real \<Rightarrow> real \<Rightarrow> real \<Rightarrow> real" where
  "composite_spec sceneColor bloomColor bloomIntensity scanlineMask vignetteMask
       noise noiseIntensity flickerIntensity t =
     ((sceneColor + bloomColor * bloomIntensity) * scanlineMask * vignetteMask
        + noise * noiseIntensity)
     * (1 + sin (t * 120) * flickerIntensity + 0.5 * sin (t * 67) * flickerIntensity)"


chapter \<open>Properties\<close>

section \<open>Properties of the antimeridian split\<close>

lemma push_segment_append: "push_segment cur c out = out @ push_segment cur c []"
  by (simp add: push_segment_def)

lemma split_loop_output: "split_loop c prev ps cur out = out @ split_loop c prev ps cur []"
proof (induction ps arbitrary: prev cur out)
  case Nil
  show ?case by (simp add: push_segment_def)
next
  case (Cons p ps)
  show ?case
  proof (cases "crossesAntimeridian prev p")
    case True
    have "split_loop c prev (p # ps) cur out = push_segment cur c out @ split_loop c p ps [p] []"
      using True Cons.IH[of p "[p]" "push_segment cur c out"] by simp
    also have "\<dots> = out @ push_segment cur c [] @ split_loop c p ps [p] []"
      using push_segment_append[of cur c out] by simp
    also have "\<dots> = out @ split_loop c prev (p # ps) cur []"
      using True Cons.IH[of p "[p]" "push_segment cur c []"] by simp
    finally show ?thesis .
  next
    case False
    then show ?thesis using Cons.IH[of p "cur @ [p]" out] by simp
  qed
qed

lemma splitAtAntimeridian_output:
  "splitAtAntimeridian pts out c = out @ splitAtAntimeridian pts [] c"
proof (cases pts)
  case Nil
  then show ?thesis by (simp add: splitAtAntimeridian_def)
next
  case (Cons p ps)
  then show ?thesis
    using split_loop_output[of c p ps "[p]" out] by (simp add: splitAtAntimeridian_def)
qed

lemma split_loop_no_crossing:
  "crossings (prev # ps) = 0 \<Longrightarrow> split_loop c prev ps cur [] = push_segment (cur @ ps) c []"
  by (induction ps arbitrary: prev cur) (auto split: if_splits)

lemma split_loop_compose:
  "crossesAntimeridian (last (prev # xs)) y \<Longrightarrow>
   split_loop c prev (xs @ y # ys) cur [] = split_loop c prev xs cur [] @ split_loop c y ys [y] []"
proof (induction xs arbitrary: prev cur)
  case Nil
  then show ?case using split_loop_output[of c y ys "[y]" "push_segment cur c []"] by simp
next
  case (Cons x xs)
  have l: "crossesAntimeridian (last (x # xs)) y" using Cons.prems by simp
  show ?case
  proof (cases "crossesAntimeridian prev x")
    case True
    have "split_loop c prev ((x # xs) @ y # ys) cur [] =
            push_segment cur c [] @ split_loop c x (xs @ y # ys) [x] []"
      using True split_loop_output[of c x "xs @ y # ys" "[x]" "push_segment cur c []"] by simp
    also have "\<dots> = push_segment cur c [] @ split_loop c x xs [x] [] @ split_loop c y ys [y] []"
      using Cons.IH[OF l] by simp
    also have "\<dots> = split_loop c prev (x # xs) cur [] @ split_loop c y ys [y] []"
      using True split_loop_output[of c x xs "[x]" "push_segment cur c []"] by simp
    finally show ?thesis .
  next
    case False
    then show ?thesis using Cons.IH[OF l] by simp
  qed
qed

lemma splitAtAntimeridian_compose:
  assumes "xs \<noteq> []" and "ys \<noteq> []" and "crossesAntimeridian (last xs) (hd ys)"
  shows "splitAtAntimeridian (xs @ ys) [] c =
           splitAtAntimeridian xs [] c @ splitAtAntimeridian ys [] c"
proof -
  obtain x xs' where xs: "xs = x # xs'" using assms(1) by (cases xs) auto
  obtain y ys' where ys: "ys = y # ys'" using assms(2) by (cases ys) auto
  have "crossesAntimeridian (last (x # xs')) y" using assms(3) xs ys by simp
  then show ?thesis
    using split_loop_compose[of x xs' y c ys' "[x]"] by (simp add: splitAtAntimeridian_def xs ys)
qed

lemma crossings_snoc:
  "xs \<noteq> [] \<Longrightarrow>
   crossings (xs @ [p]) = crossings xs + (if crossesAntimeridian (last xs) p then 1 else 0)"
  by (induction xs rule: crossings.induct) auto

lemma crossings_zero_nth:
  "crossings ps = 0 \<Longrightarrow> Suc i < length ps \<Longrightarrow> \<not> crossesAntimeridian (ps ! i) (ps ! Suc i)"
proof (induction ps arbitrary: i rule: crossings.induct)
  case (1 p q ps)
  then show ?case by (cases i) (auto split: if_splits)
qed auto

lemma split_loop_segments:
  "cur \<noteq> [] \<Longrightarrow> last cur = prev \<Longrightarrow> crossings cur = 0 \<Longrightarrow>
   s \<in> set (split_loop c prev ps cur []) \<Longrightarrow>
   2 \<le> length (seg_points s) \<and> crossings (seg_points s) = 0 \<and> seg_color s = c"
proof (induction ps arbitrary: prev cur)
  case Nil
  then show ?case by (auto simp: push_segment_def split: if_splits)
next
  case (Cons p ps)
  show ?case
  proof (cases "crossesAntimeridian prev p")
    case True
    then have "s \<in> set (push_segment cur c []) \<or> s \<in> set (split_loop c p ps [p] [])"
      using Cons.prems(4) split_loop_output[of c p ps "[p]" "push_segment cur c []"] by auto
    then show ?thesis
    proof
      assume "s \<in> set (push_segment cur c [])"
      then show ?thesis using Cons.prems(3) by (auto simp: push_segment_def split: if_splits)
    next
      assume "s \<in> set (split_loop c p ps [p] [])"
      then show ?thesis using Cons.IH[of "[p]" p] by simp
    qed
  next
    case False
    then have "s \<in> set (split_loop c p ps (cur @ [p]) [])" using Cons.prems(4) by simp
    moreover have "crossings (cur @ [p]) = 0"
      using False Cons.prems(1,2,3) by (simp add: crossings_snoc)
    ultimately show ?thesis using Cons.IH[of "cur @ [p]" p] by simp
  qed
qed

lemma splitAtAntimeridian_segments:
  assumes "s \<in> set (splitAtAntimeridian pts [] c)"
  shows "2 \<le> length (seg_points s) \<and> crossings (seg_points s) = 0 \<and> seg_color s = c"
proof (cases pts)
  case Nil
  then show ?thesis using assms by (simp add: splitAtAntimeridian_def)
next
  case (Cons p ps)
  then have "s \<in> set (split_loop c p ps [p] [])"
    using assms by (simp add: splitAtAntimeridian_def)
  then show ?thesis using split_loop_segments[of "[p]" p s c ps] by simp
qed

lemma split_loop_subseq:
  "subseq (concat (map seg_points (split_loop c prev ps cur []))) (cur @ ps)"
proof (induction ps arbitrary: prev cur)
  case Nil
  show ?case by (simp add: push_segment_def)
next
  case (Cons p ps)
  show ?case
  proof (cases "crossesAntimeridian prev p")
    case True
    have e: "split_loop c prev (p # ps) cur [] = push_segment cur c [] @ split_loop c p ps [p] []"
      using True split_loop_output[of c p ps "[p]" "push_segment cur c []"] by simp
    have 1: "subseq (concat (map seg_points (push_segment cur c []))) cur"
      by (simp add: push_segment_def)
    have 2: "subseq (concat (map seg_points (split_loop c p ps [p] []))) ([p] @ ps)"
      using Cons.IH[of p "[p]"] .
    show ?thesis unfolding e using list_emb_append_mono[OF 1 2] by simp
  next
    case False
    then show ?thesis using Cons.IH[of p "cur @ [p]"] by simp
  qed
qed

lemma splitAtAntimeridian_subseq:
  "subseq (concat (map seg_points (splitAtAntimeridian pts [] c))) pts"
proof (cases pts)
  case Nil
  then show ?thesis by (simp add: splitAtAntimeridian_def)
next
  case (Cons p ps)
  then show ?thesis using split_loop_subseq[of c p ps "[p]"] by (simp add: splitAtAntimeridian_def)
qed

lemma split_loop_one_crossing:
  "crossings (prev # ps) = 1 \<Longrightarrow>
   split_loop c prev ps cur [] =
     push_segment (cur @ take (cross_at (prev # ps) - 1) ps) c [] @
     push_segment (drop (cross_at (prev # ps) - 1) ps) c []"
proof (induction ps arbitrary: prev cur)
  case Nil
  then show ?case by simp
next
  case (Cons p ps)
  show ?case
  proof (cases "crossesAntimeridian prev p")
    case True
    then have "crossings (p # ps) = 0" using Cons.prems by simp
    then have "split_loop c p ps [p] [] = push_segment (p # ps) c []"
      using split_loop_no_crossing[of p ps c "[p]"] by simp
    then show ?thesis
      using True split_loop_output[of c p ps "[p]" "push_segment cur c []"] by simp
  next
    case False
    then have one: "crossings (p # ps) = 1" using Cons.prems by simp
    then have "ps \<noteq> []" by (cases ps) auto
    then obtain q qs where ps: "ps = q # qs" by (cases ps) auto
    have pos: "0 < cross_at (p # ps)" unfolding ps by simp
    show ?thesis using False Cons.IH[OF one, of "cur @ [p]"] pos
      by (cases "cross_at (p # ps)") (auto simp: ps)
  qed
qed

lemma cross_at_bounds: "crossings ps = 1 \<Longrightarrow> 0 < cross_at ps \<and> cross_at ps < length ps"
  by (induction ps rule: crossings.induct) (auto split: if_splits)

lemma splitAtAntimeridian_no_crossing:
  assumes "2 \<le> length pts" and "crossings pts = 0"
  shows "splitAtAntimeridian pts [] c = [\<lparr>seg_points = pts, seg_color = c\<rparr>]"
proof -
  obtain p ps where pts: "pts = p # ps" using assms(1) by (cases pts) auto
  have "split_loop c p ps [p] [] = push_segment ([p] @ ps) c []"
    using split_loop_no_crossing[of p ps c "[p]"] assms(2) pts by simp
  moreover have "ps \<noteq> []" using assms(1) pts by auto
  ultimately show ?thesis by (simp add: splitAtAntimeridian_def pts push_segment_def)
qed

lemma splitAtAntimeridian_one_crossing:
  assumes "crossings pts = 1"
  shows "splitAtAntimeridian pts [] c =
           push_segment (take (cross_at pts) pts) c [] @ push_segment (drop (cross_at pts) pts) c []"
proof -
  obtain p ps where pts: "pts = p # ps" using assms by (cases pts) auto
  have pos: "0 < cross_at (p # ps)" using cross_at_bounds[OF assms] pts by simp
  then obtain k where k: "cross_at (p # ps) = Suc k" by (cases "cross_at (p # ps)") auto
  have "split_loop c p ps [p] [] =
          push_segment ([p] @ take k ps) c [] @ push_segment (drop k ps) c []"
    using split_loop_one_crossing[of p ps c "[p]"] assms pts k by simp
  then show ?thesis by (simp add: splitAtAntimeridian_def pts k)
qed

lemma cross_at_crosses:
  "crossings ps = 1 \<Longrightarrow> crossesAntimeridian (ps ! (cross_at ps - 1)) (ps ! cross_at ps)"
proof (induction ps rule: crossings.induct)
  case (1 p q ps)
  show ?case
  proof (cases "crossesAntimeridian p q")
    case True
    then show ?thesis by simp
  next
    case False
    then have one: "crossings (q # ps) = 1" using "1.prems" by simp
    obtain k where k: "cross_at (q # ps) = Suc k"
      using cross_at_bounds[OF one] by (cases "cross_at (q # ps)") auto
    show ?thesis using False "1.IH" one k by simp
  qed
qed auto

text \<open>
  C9. For every input polyline \<open>pts\<close> and colour \<open>c\<close>:
  \<^item> every segment that \<^const>\<open>splitAtAntimeridian\<close> returns has at least two points (and the
    colour \<open>c\<close>), and no two consecutive points of it are more than half the screen width
    apart in \<open>x\<close>;
  \<^item> the comparison is strict: a pair crosses exactly when \<open>\<bar>x2 - x1\<bar>\<close> is greater than
    \<open>SCREEN_WIDTH / 2\<close>, and a pair at exactly that distance stays in one segment;
  \<^item> no point is invented: the points of the returned segments, read in order, are a
    subsequence of the input;
  \<^item> on a crossing the old segment is closed and the new one begins at the current point:
    splitting \<open>xs @ ys\<close>, where the last point of \<open>xs\<close> and the first of \<open>ys\<close> cross, gives
    the segments of \<open>xs\<close> followed by the segments of \<open>ys\<close>;
  \<^item> the segments are appended to whatever \<open>output\<close> held.
\<close>

theorem antimeridian_split_invariants:
  "(\<forall>s \<in> set (splitAtAntimeridian pts [] c).
      2 \<le> length (seg_points s) \<and> seg_color s = c \<and>
      (\<forall>i. Suc i < length (seg_points s) \<longrightarrow>
         \<bar>p_x (seg_points s ! Suc i) - p_x (seg_points s ! i)\<bar> \<le> real_of_int SCREEN_WIDTH / 2)) \<and>
   (crossesAntimeridian p1 p2 \<longleftrightarrow> \<bar>p_x p2 - p_x p1\<bar> > real_of_int SCREEN_WIDTH / 2) \<and>
   (\<bar>p_x p2 - p_x p1\<bar> = real_of_int SCREEN_WIDTH / 2 \<longrightarrow>
      splitAtAntimeridian [p1, p2] [] c = [\<lparr>seg_points = [p1, p2], seg_color = c\<rparr>]) \<and>
   subseq (concat (map seg_points (splitAtAntimeridian pts [] c))) pts \<and>
   (xs \<noteq> [] \<and> ys \<noteq> [] \<and> crossesAntimeridian (last xs) (hd ys) \<longrightarrow>
      splitAtAntimeridian (xs @ ys) [] c =
        splitAtAntimeridian xs [] c @ splitAtAntimeridian ys [] c) \<and>
   splitAtAntimeridian pts out c = out @ splitAtAntimeridian pts [] c"
proof -
  have a: "\<forall>s \<in> set (splitAtAntimeridian pts [] c).
      2 \<le> length (seg_points s) \<and> seg_color s = c \<and>
      (\<forall>i. Suc i < length (seg_points s) \<longrightarrow>
         \<bar>p_x (seg_points s ! Suc i) - p_x (seg_points s ! i)\<bar> \<le> real_of_int SCREEN_WIDTH / 2)"
  proof (intro ballI conjI allI impI)
    fix s assume s: "s \<in> set (splitAtAntimeridian pts [] c)"
    show "2 \<le> length (seg_points s)" using splitAtAntimeridian_segments[OF s] by simp
    show "seg_color s = c" using splitAtAntimeridian_segments[OF s] by simp
    fix i assume i: "Suc i < length (seg_points s)"
    have "crossings (seg_points s) = 0" using splitAtAntimeridian_segments[OF s] by simp
    then have "\<not> crossesAntimeridian (seg_points s ! i) (seg_points s ! Suc i)"
      using crossings_zero_nth i by blast
    then show "\<bar>p_x (seg_points s ! Suc i) - p_x (seg_points s ! i)\<bar> \<le> real_of_int SCREEN_WIDTH / 2"
      by (simp add: crossesAntimeridian_def)
  qed
  have b: "crossesAntimeridian p1 p2 \<longleftrightarrow> \<bar>p_x p2 - p_x p1\<bar> > real_of_int SCREEN_WIDTH / 2"
    by (simp add: crossesAntimeridian_def)
  have c: "\<bar>p_x p2 - p_x p1\<bar> = real_of_int SCREEN_WIDTH / 2 \<longrightarrow>
      splitAtAntimeridian [p1, p2] [] c = [\<lparr>seg_points = [p1, p2], seg_color = c\<rparr>]"
    by (simp add: splitAtAntimeridian_def crossesAntimeridian_def push_segment_def)
  have d: "subseq (concat (map seg_points (splitAtAntimeridian pts [] c))) pts"
    by (rule splitAtAntimeridian_subseq)
  have e: "xs \<noteq> [] \<and> ys \<noteq> [] \<and> crossesAntimeridian (last xs) (hd ys) \<longrightarrow>
      splitAtAntimeridian (xs @ ys) [] c =
        splitAtAntimeridian xs [] c @ splitAtAntimeridian ys [] c"
    using splitAtAntimeridian_compose by blast
  have f: "splitAtAntimeridian pts out c = out @ splitAtAntimeridian pts [] c"
    by (rule splitAtAntimeridian_output)
  show ?thesis using a b c d e f by blast
qed

text \<open>
  The theorem at a four-point polyline whose second and third point cross: two segments
  of two points each, the second beginning at the third input point; and at a pair whose
  distance is exactly \<open>960\<close>, which is not split.
\<close>

theorem antimeridian_split_invariants_witness:
  "splitAtAntimeridian
     [\<lparr>p_x = 0, p_y = 0\<rparr>, \<lparr>p_x = 100, p_y = 5\<rparr>, \<lparr>p_x = 1800, p_y = 9\<rparr>, \<lparr>p_x = 1700, p_y = 7\<rparr>] [] CYAN =
     [\<lparr>seg_points = [\<lparr>p_x = 0, p_y = 0\<rparr>, \<lparr>p_x = 100, p_y = 5\<rparr>], seg_color = CYAN\<rparr>,
      \<lparr>seg_points = [\<lparr>p_x = 1800, p_y = 9\<rparr>, \<lparr>p_x = 1700, p_y = 7\<rparr>], seg_color = CYAN\<rparr>] \<and>
   splitAtAntimeridian [\<lparr>p_x = 0, p_y = 0\<rparr>, \<lparr>p_x = 100, p_y = 5\<rparr>] [] CYAN @
   splitAtAntimeridian [\<lparr>p_x = 1800, p_y = 9\<rparr>, \<lparr>p_x = 1700, p_y = 7\<rparr>] [] CYAN =
     splitAtAntimeridian
       [\<lparr>p_x = 0, p_y = 0\<rparr>, \<lparr>p_x = 100, p_y = 5\<rparr>, \<lparr>p_x = 1800, p_y = 9\<rparr>, \<lparr>p_x = 1700, p_y = 7\<rparr>] [] CYAN \<and>
   \<bar>p_x \<lparr>p_x = 960, p_y = 0\<rparr> - p_x \<lparr>p_x = 0, p_y = 0\<rparr>\<bar> = real_of_int SCREEN_WIDTH / 2 \<and>
   \<not> crossesAntimeridian \<lparr>p_x = 0, p_y = 0\<rparr> \<lparr>p_x = 960, p_y = 0\<rparr> \<and>
   splitAtAntimeridian [\<lparr>p_x = 0, p_y = 0\<rparr>, \<lparr>p_x = 960, p_y = 0\<rparr>] [] CYAN =
     [\<lparr>seg_points = [\<lparr>p_x = 0, p_y = 0\<rparr>, \<lparr>p_x = 960, p_y = 0\<rparr>], seg_color = CYAN\<rparr>]"
  using antimeridian_split_invariants
    [of "[\<lparr>p_x = 0, p_y = 0\<rparr>, \<lparr>p_x = 100, p_y = 5\<rparr>, \<lparr>p_x = 1800, p_y = 9\<rparr>, \<lparr>p_x = 1700, p_y = 7\<rparr>]"
        CYAN "\<lparr>p_x = 0, p_y = 0\<rparr>" "\<lparr>p_x = 960, p_y = 0\<rparr>"
        "[\<lparr>p_x = 0, p_y = 0\<rparr>, \<lparr>p_x = 100, p_y = 5\<rparr>]"
        "[\<lparr>p_x = 1800, p_y = 9\<rparr>, \<lparr>p_x = 1700, p_y = 7\<rparr>]" "[]"]
  by (simp add: splitAtAntimeridian_def crossesAntimeridian_def push_segment_def SCREEN_WIDTH_def)

text \<open>
  C3, as the code has it. A polyline of at least two points with no crossing pair comes
  back as exactly one segment, equal to the input. A polyline with exactly one crossing
  pair is cut between the two points of the pair (at index \<^term>\<open>cross_at pts\<close>), and each of
  the two pieces is returned only if it has at least two points
  (\<^const>\<open>push_segment\<close>): the result has exactly two segments if and only if the crossing
  pair is neither the first nor the last pair of the polyline, and fewer otherwise.
\<close>

theorem splitPath_segment_count:
  "(2 \<le> length pts \<and> crossings pts = 0 \<longrightarrow>
      splitAtAntimeridian pts [] c = [\<lparr>seg_points = pts, seg_color = c\<rparr>]) \<and>
   (crossings pts = 1 \<longrightarrow>
      0 < cross_at pts \<and> cross_at pts < length pts \<and>
      crossesAntimeridian (pts ! (cross_at pts - 1)) (pts ! cross_at pts) \<and>
      splitAtAntimeridian pts [] c =
        push_segment (take (cross_at pts) pts) c [] @ push_segment (drop (cross_at pts) pts) c [] \<and>
      (length (splitAtAntimeridian pts [] c) = 2 \<longleftrightarrow>
         2 \<le> cross_at pts \<and> cross_at pts + 2 \<le> length pts))"
proof (intro conjI impI)
  assume "2 \<le> length pts \<and> crossings pts = 0"
  then show "splitAtAntimeridian pts [] c = [\<lparr>seg_points = pts, seg_color = c\<rparr>]"
    using splitAtAntimeridian_no_crossing by blast
next
  assume one: "crossings pts = 1"
  show "0 < cross_at pts" using cross_at_bounds[OF one] by simp
  show "cross_at pts < length pts" using cross_at_bounds[OF one] by simp
  show "crossesAntimeridian (pts ! (cross_at pts - 1)) (pts ! cross_at pts)"
    by (rule cross_at_crosses[OF one])
  show e: "splitAtAntimeridian pts [] c =
        push_segment (take (cross_at pts) pts) c [] @ push_segment (drop (cross_at pts) pts) c []"
    by (rule splitAtAntimeridian_one_crossing[OF one])
  show "length (splitAtAntimeridian pts [] c) = 2 \<longleftrightarrow>
         2 \<le> cross_at pts \<and> cross_at pts + 2 \<le> length pts"
    unfolding e using cross_at_bounds[OF one] by (auto simp: push_segment_def)
qed

text \<open>
  The theorem at a four-point polyline crossing between its second and third point (two
  segments) and at a two-point polyline without a crossing (one segment, the input).
\<close>

theorem splitPath_segment_count_witness:
  "crossings [\<lparr>p_x = 0, p_y = 0\<rparr>, \<lparr>p_x = 100, p_y = 5\<rparr>, \<lparr>p_x = 1800, p_y = 9\<rparr>, \<lparr>p_x = 1700, p_y = 7\<rparr>] = 1 \<and>
   cross_at [\<lparr>p_x = 0, p_y = 0\<rparr>, \<lparr>p_x = 100, p_y = 5\<rparr>, \<lparr>p_x = 1800, p_y = 9\<rparr>, \<lparr>p_x = 1700, p_y = 7\<rparr>] = 2 \<and>
   length (splitAtAntimeridian
     [\<lparr>p_x = 0, p_y = 0\<rparr>, \<lparr>p_x = 100, p_y = 5\<rparr>, \<lparr>p_x = 1800, p_y = 9\<rparr>, \<lparr>p_x = 1700, p_y = 7\<rparr>] [] CYAN) = 2 \<and>
   crossings [\<lparr>p_x = 0, p_y = 0\<rparr>, \<lparr>p_x = 100, p_y = 5\<rparr>] = 0 \<and>
   splitAtAntimeridian [\<lparr>p_x = 0, p_y = 0\<rparr>, \<lparr>p_x = 100, p_y = 5\<rparr>] [] CYAN =
     [\<lparr>seg_points = [\<lparr>p_x = 0, p_y = 0\<rparr>, \<lparr>p_x = 100, p_y = 5\<rparr>], seg_color = CYAN\<rparr>]"
  using splitPath_segment_count
    [of "[\<lparr>p_x = 0, p_y = 0\<rparr>, \<lparr>p_x = 100, p_y = 5\<rparr>, \<lparr>p_x = 1800, p_y = 9\<rparr>, \<lparr>p_x = 1700, p_y = 7\<rparr>]" CYAN]
    splitPath_segment_count [of "[\<lparr>p_x = 0, p_y = 0\<rparr>, \<lparr>p_x = 100, p_y = 5\<rparr>]" CYAN]
  by (simp add: crossesAntimeridian_def push_segment_def SCREEN_WIDTH_def)

text \<open>
  C3 as the specification words it fails on three inputs. A single point has no crossing
  pair and yields no segment at all (not one segment equal to the input). Two points that
  cross are exactly one crossing pair and yield no segment. Three points crossing between
  the second and the third yield one segment, not two.
\<close>

theorem splitPath_segment_count_counterexample:
  "crossings [\<lparr>p_x = 0, p_y = 0\<rparr>] = 0 \<and>
   splitAtAntimeridian [\<lparr>p_x = 0, p_y = 0\<rparr>] [] CYAN = [] \<and>
   crossings [\<lparr>p_x = 0, p_y = 0\<rparr>, \<lparr>p_x = 1000, p_y = 0\<rparr>] = 1 \<and>
   splitAtAntimeridian [\<lparr>p_x = 0, p_y = 0\<rparr>, \<lparr>p_x = 1000, p_y = 0\<rparr>] [] CYAN = [] \<and>
   crossings [\<lparr>p_x = 0, p_y = 0\<rparr>, \<lparr>p_x = 100, p_y = 0\<rparr>, \<lparr>p_x = 1800, p_y = 0\<rparr>] = 1 \<and>
   splitAtAntimeridian [\<lparr>p_x = 0, p_y = 0\<rparr>, \<lparr>p_x = 100, p_y = 0\<rparr>, \<lparr>p_x = 1800, p_y = 0\<rparr>] [] CYAN =
     [\<lparr>seg_points = [\<lparr>p_x = 0, p_y = 0\<rparr>, \<lparr>p_x = 100, p_y = 0\<rparr>], seg_color = CYAN\<rparr>]"
  by (simp add: splitAtAntimeridian_def crossesAntimeridian_def push_segment_def SCREEN_WIDTH_def)

section \<open>Projection\<close>

lemma pow2_powr: "pow2 e = 2 powr (of_int e)"
  by (simp add: pow2_def powr_real_of_int inverse_eq_divide)

lemma binary_exponent_bounds:
  "0 < x \<Longrightarrow> pow2 (binary_exponent x) \<le> x \<and> x < 2 * pow2 (binary_exponent x)"
proof (induction x rule: binary_exponent.induct)
  case (1 x)
  show ?case
  proof (cases "2 \<le> x")
    case True
    have e: "binary_exponent x = binary_exponent (x / 2) + 1"
      using True 1(3) by (subst binary_exponent.simps) simp
    have ih: "pow2 (binary_exponent (x / 2)) \<le> x / 2 \<and> x / 2 < 2 * pow2 (binary_exponent (x / 2))"
      using 1(1)[of] True 1(3) by simp
    have "pow2 (binary_exponent (x / 2) + 1) = 2 * pow2 (binary_exponent (x / 2))"
      by (simp add: pow2_powr powr_add)
    then show ?thesis using ih e by simp
  next
    case False
    show ?thesis
    proof (cases "x < 1")
      case True
      have e: "binary_exponent x = binary_exponent (2 * x) - 1"
        using True False 1(3) by (subst binary_exponent.simps) simp
      have ih: "pow2 (binary_exponent (2 * x)) \<le> 2 * x \<and> 2 * x < 2 * pow2 (binary_exponent (2 * x))"
        using 1(2) True False 1(3) by simp
      have "pow2 (binary_exponent (2 * x) - 1) = pow2 (binary_exponent (2 * x)) / 2"
        by (simp add: pow2_powr powr_diff)
      then show ?thesis using ih e by simp
    next
      case F2: False
      have e: "binary_exponent x = 0"
        using F2 False 1(3) by (subst binary_exponent.simps) simp
      show ?thesis using F2 False by (simp add: e pow2_def)
    qed
  qed
qed

lemma binary_exponent_floor_log: "0 < x \<Longrightarrow> binary_exponent x = \<lfloor>log 2 x\<rfloor>"
proof -
  assume x: "0 < x"
  have "2 powr (of_int (binary_exponent x + 1)) = 2 * pow2 (binary_exponent x)"
    by (simp add: pow2_powr powr_add)
  hence "\<lfloor>log 2 x\<rfloor> = binary_exponent x"
    using floor_log_eq_powr_iff[of x 2 "binary_exponent x"] binary_exponent_bounds[OF x] x
    by (simp add: pow2_powr)
  thus ?thesis by simp
qed

lemma binary64_log:
  "binary64 x =
     (if x = 0 then 0
      else (let e = \<lfloor>log 2 \<bar>x\<bar>\<rfloor>; ulp = 2 powr (of_int (e - 52))
            in of_int (round_half_even (x / ulp)) * ulp))"
  by (simp add: binary64_def binary_exponent_floor_log pow2_powr Let_def)

lemma round_half_even_error: "\<bar>of_int (round_half_even y) - y\<bar> \<le> 1 / 2"
  unfolding round_half_even_def Let_def by (auto; linarith)

lemma round_half_even_eq: "of_int k - 1 / 2 < y \<Longrightarrow> y < of_int k + 1 / 2 \<Longrightarrow> round_half_even y = k"
  unfolding round_half_even_def Let_def by (auto; linarith)

lemma binary64_error: "\<bar>binary64 x - x\<bar> \<le> \<bar>x\<bar> / 2 ^ 53"
proof (cases "x = 0")
  case True
  then show ?thesis by (simp add: binary64_log)
next
  case False
  define e where "e = \<lfloor>log 2 \<bar>x\<bar>\<rfloor>"
  define ulp :: real where "ulp = 2 powr (of_int (e - 52))"
  have ulp_pos: "0 < ulp" by (simp add: ulp_def)
  have fl: "binary64 x = of_int (round_half_even (x / ulp)) * ulp"
    using False by (simp add: binary64_log e_def ulp_def Let_def)
  have "binary64 x - x = (of_int (round_half_even (x / ulp)) - x / ulp) * ulp"
    using ulp_pos by (simp add: fl field_simps)
  hence "\<bar>binary64 x - x\<bar> = \<bar>of_int (round_half_even (x / ulp)) - x / ulp\<bar> * ulp"
    using ulp_pos by (simp add: abs_mult)
  also have "\<dots> \<le> (1 / 2) * ulp"
    using round_half_even_error[of "x / ulp"] ulp_pos by (intro mult_right_mono) auto
  finally have step: "\<bar>binary64 x - x\<bar> \<le> ulp / 2" by simp
  have "2 powr (of_int e) \<le> \<bar>x\<bar>"
    using floor_log_eq_powr_iff[of "\<bar>x\<bar>" 2 e] False by (simp add: e_def)
  moreover have "ulp = 2 powr (of_int e) / 2 ^ 52"
    by (simp add: ulp_def powr_diff)
  ultimately have "ulp / 2 \<le> \<bar>x\<bar> / 2 ^ 53" by simp
  with step show ?thesis by linarith
qed

lemma binary64_eval:
  fixes n :: nat
  assumes "2 ^ 52 \<le> \<bar>x\<bar> * 2 ^ n" and "\<bar>x\<bar> * 2 ^ n < 2 ^ 53"
  shows "binary64 x = of_int (round_half_even (x * 2 ^ n)) / 2 ^ n"
proof -
  have nz: "x \<noteq> 0" using assms(1) by auto
  have p: "(2::real) powr (of_int (52 - int n)) = 2 ^ 52 / 2 ^ n"
    by (simp add: powr_diff powr_realpow)
  have p1: "(2::real) powr (of_int (52 - int n + 1)) = 2 ^ 53 / 2 ^ n"
    by (simp add: powr_diff powr_realpow powr_add)
  have "\<lfloor>log 2 \<bar>x\<bar>\<rfloor> = 52 - int n"
    using floor_log_eq_powr_iff[of "\<bar>x\<bar>" 2 "52 - int n"] nz assms
    unfolding p p1 by (simp add: field_simps)
  moreover have "(2::real) powr (of_int (52 - int n - 52)) = 1 / 2 ^ n"
    by (simp add: powr_minus powr_realpow inverse_eq_divide)
  ultimately show ?thesis
    using nz by (simp add: binary64_log Let_def)
qed


lemma round_half_even_int: "round_half_even (of_int k) = k"
  by (rule round_half_even_eq) auto

lemma round_half_even_tie_up: "y = of_int k - 1 / 2 \<Longrightarrow> even k \<Longrightarrow> round_half_even y = k"
proof -
  assume y: "y = of_int k - 1 / 2" and k: "even k"
  have "\<lfloor>y\<rfloor> = k - 1" unfolding y by linarith
  thus ?thesis using k by (simp add: round_half_even_def Let_def y)
qed

lemma round_half_even_tie_down: "y = of_int k + 1 / 2 \<Longrightarrow> even k \<Longrightarrow> round_half_even y = k"
proof -
  assume y: "y = of_int k + 1 / 2" and k: "even k"
  have "\<lfloor>y\<rfloor> = k" unfolding y by linarith
  thus ?thesis using k by (simp add: round_half_even_def Let_def y)
qed

lemma binary64_360: "binary64 360 = 360"
  using binary64_eval[of 360 44] round_half_even_int[of "360 * 2 ^ 44"] by simp

lemma binary64_180: "binary64 180 = 180"
  using binary64_eval[of 180 45] round_half_even_int[of "180 * 2 ^ 45"] by simp

lemma binary64_90: "binary64 90 = 90"
  using binary64_eval[of 90 46] round_half_even_int[of "90 * 2 ^ 46"] by simp

lemma tokyo_lon: "binary64 139.6503 = 4913508117517015 / 2 ^ 45"
  using binary64_eval[of "139.6503" 45] round_half_even_eq[of 4913508117517015 "139.6503 * 2 ^ 45"] by simp


lemma tokyo_global_1: "binary64 (4913508117517015 / 2 ^ 45 + 180) = 1405836886688347 / 2 ^ 42"
  using binary64_eval[of "4913508117517015 / 2 ^ 45 + 180" 44]
    round_half_even_tie_up[of "(4913508117517015 / 2 ^ 45 + 180) * 2 ^ 44" 5623347546753388] by simp

lemma tokyo_global_2: "binary64 (1405836886688347 / 2 ^ 42 / 360) = 7997649844271485 / 2 ^ 53"
  using binary64_eval[of "1405836886688347 / 2 ^ 42 / 360" 53]
    round_half_even_eq[of 7997649844271485 "1405836886688347 / 2 ^ 42 / 360 * 2 ^ 53"] by simp

lemma tokyo_global_3: "binary64 (7997649844271485 / 2 ^ 53 * 1920) = 7497796729004517 / 2 ^ 42"
  using binary64_eval[of "7997649844271485 / 2 ^ 53 * 1920" 42]
    round_half_even_eq[of 7497796729004517 "7997649844271485 / 2 ^ 53 * 1920 * 2 ^ 42"] by simp

lemma tokyo_regional_1: "binary64 (4913508117517015 / 2 ^ 45) = 4913508117517015 / 2 ^ 45"
  using binary64_eval[of "4913508117517015 / 2 ^ 45" 45]
    round_half_even_int[of 4913508117517015] by simp

lemma tokyo_regional_2: "binary64 (4913508117517015 / 2 ^ 45 / 180) = 6988100433801977 / 2 ^ 53"
  using binary64_eval[of "4913508117517015 / 2 ^ 45 / 180" 53]
    round_half_even_eq[of 6988100433801977 "4913508117517015 / 2 ^ 45 / 180 * 2 ^ 53"] by simp

lemma tokyo_regional_3: "binary64 (6988100433801977 / 2 ^ 53 + 1) = 1999412461067871 / 2 ^ 50"
  using binary64_eval[of "6988100433801977 / 2 ^ 53 + 1" 52]
    round_half_even_tie_down[of "(6988100433801977 / 2 ^ 53 + 1) * 2 ^ 52" 7997649844271484] by simp

lemma tokyo_regional_4: "binary64 (1999412461067871 / 2 ^ 50 / 2) = 1999412461067871 / 2 ^ 51"
  using binary64_eval[of "1999412461067871 / 2 ^ 50 / 2" 53]
    round_half_even_int[of 7997649844271484] by simp

lemma tokyo_regional_5: "binary64 (1999412461067871 / 2 ^ 51 * 1920) = 1874449182251129 / 2 ^ 40"
  using binary64_eval[of "1999412461067871 / 2 ^ 51 * 1920" 42]
    round_half_even_eq[of 7497796729004516 "1999412461067871 / 2 ^ 51 * 1920 * 2 ^ 42"] by simp

lemma tokyo_global_x:
  "p_x (lonLatToXY_fl binary64 (binary64 139.6503) lat 1920 height None) = 7497796729004517 / 2 ^ 42"
  unfolding lonLatToXY_fl_def Let_def tokyo_lon
  by (simp only: option.case Point.simps tokyo_global_1 tokyo_global_2 tokyo_global_3)

lemma tokyo_regional_x:
  "p_x (lonLatToXY_fl binary64 (binary64 139.6503) lat 1920 height
          (Some \<lparr>centerLon = 0, centerLat = 0, zoom = 1\<rparr>)) = 1874449182251129 / 2 ^ 40"
proof -
  have c: "(360::real) / 1 = 360" "(360::real) / 2 = 180" "x - 0 = x" for x :: real by simp_all
  have z: "(if (1::real) = 0 then (1::real) else 1) = 1" by simp
  show ?thesis
    unfolding lonLatToXY_fl_def Let_def tokyo_lon
    by (simp only: option.case Point.simps Viewport.simps z c binary64_360 binary64_180
          tokyo_regional_1 tokyo_regional_2 tokyo_regional_3 tokyo_regional_4 tokyo_regional_5)
qed


lemma lonLatToXY_fl_exact: "lonLatToXY_fl (\<lambda>x. x) lon lat width height viewport = lonLatToXY lon lat width height viewport"
  by (simp add: lonLatToXY_fl_def lonLatToXY_def)

lemma binary64_direct: "\<bar>Z\<bar> \<le> M \<Longrightarrow> \<bar>binary64 Z - Z\<bar> \<le> M / 2 ^ 53"
proof -
  assume "\<bar>Z\<bar> \<le> M"
  hence "\<bar>Z\<bar> / 2 ^ 53 \<le> M / 2 ^ 53" by (simp add: divide_right_mono)
  with binary64_error[of Z] show ?thesis by linarith
qed

lemma binary64_step:
  assumes zZ: "\<bar>z - Z\<bar> \<le> k * s / 2 ^ 53" and Z: "\<bar>Z\<bar> \<le> m * s" and s: "0 \<le> s"
    and k: "0 \<le> k" "k \<le> 2 ^ 53"
  shows "\<bar>binary64 z - Z\<bar> \<le> (k + m + 1) * s / 2 ^ 53"
proof -
  have "k * s / 2 ^ 53 \<le> 2 ^ 53 * s / 2 ^ 53"
    using k s by (intro divide_right_mono mult_right_mono) auto
  hence ks: "k * s / 2 ^ 53 \<le> s" by simp
  have "\<bar>z\<bar> \<le> \<bar>Z\<bar> + \<bar>z - Z\<bar>" by linarith
  hence "\<bar>z\<bar> \<le> (m + 1) * s" using zZ Z ks by (simp add: algebra_simps)
  hence "\<bar>binary64 z - z\<bar> \<le> (m + 1) * s / 2 ^ 53" by (rule binary64_direct)
  moreover have "\<bar>binary64 z - Z\<bar> \<le> \<bar>binary64 z - z\<bar> + \<bar>z - Z\<bar>" by linarith
  ultimately have "\<bar>binary64 z - Z\<bar> \<le> (m + 1) * s / 2 ^ 53 + k * s / 2 ^ 53"
    using zZ by linarith
  thus ?thesis by (simp add: algebra_simps add_divide_distrib)
qed

lemma scale_error:
  fixes b B w :: real
  assumes "\<bar>b - B\<bar> \<le> k / 2 ^ 53" and "0 \<le> w"
  shows "\<bar>b * w - B * w\<bar> \<le> k * w / 2 ^ 53"
proof -
  have "\<bar>b * w - B * w\<bar> = \<bar>b - B\<bar> * w"
    using assms(2) by (simp add: left_diff_distrib[symmetric] abs_mult)
  also have "\<dots> \<le> k / 2 ^ 53 * w" using assms by (rule mult_right_mono)
  finally show ?thesis by simp
qed

lemma quotient_error:
  fixes B c :: real
  assumes B: "\<bar>B\<bar> \<le> c" and c: "0 < c"
  shows "\<bar>binary64 (binary64 B / c) - B / c\<bar> \<le> 3 / 2 ^ 53"
proof -
  have "\<bar>binary64 B - B\<bar> \<le> c / 2 ^ 53" using B by (rule binary64_direct)
  hence "\<bar>binary64 B - B\<bar> / c \<le> c / 2 ^ 53 / c" using c by (simp add: divide_right_mono)
  moreover have "\<bar>binary64 B / c - B / c\<bar> = \<bar>binary64 B - B\<bar> / c"
    using c by (simp add: diff_divide_distrib[symmetric])
  ultimately have 1: "\<bar>binary64 B / c - B / c\<bar> \<le> 1 * 1 / 2 ^ 53" using c by simp
  have 2: "\<bar>B / c\<bar> \<le> 1 * 1" using B c by simp
  show ?thesis using binary64_step[OF 1 2] by simp
qed

lemma global_branch_error:
  fixes A c w :: real
  assumes A: "0 \<le> A" "A \<le> c" and c: "0 < c" and w: "0 \<le> w"
  shows "\<bar>binary64 (binary64 (binary64 A / c) * w) - A / c * w\<bar> \<le> 5 * w / 2 ^ 53"
proof -
  have q: "\<bar>binary64 (binary64 A / c) - A / c\<bar> \<le> 3 / 2 ^ 53"
    using A c by (intro quotient_error) auto
  have 1: "\<bar>binary64 (binary64 A / c) * w - A / c * w\<bar> \<le> 3 * w / 2 ^ 53"
    using q w by (rule scale_error)
  have "\<bar>A / c\<bar> \<le> 1" using A c by simp
  hence "\<bar>A / c\<bar> * w \<le> 1 * w" using w by (rule mult_right_mono)
  hence 2: "\<bar>A / c * w\<bar> \<le> 1 * w" using w by (simp add: abs_mult)
  show ?thesis using binary64_step[OF 1 2 w] by simp
qed

lemma regional_tail_error:
  fixes v V w :: real
  assumes v: "\<bar>v - V\<bar> \<le> 3 / 2 ^ 53" and V: "0 \<le> V" "V \<le> 2" and w: "0 \<le> w"
  shows "\<bar>binary64 (binary64 (binary64 v / 2) * w) - V / 2 * w\<bar> \<le> 7 * w / 2 ^ 53"
proof -
  have 1: "\<bar>v - V\<bar> \<le> 3 * 1 / 2 ^ 53" using v by simp
  have 2: "\<bar>V\<bar> \<le> 2 * 1" using V by simp
  have t: "\<bar>binary64 v - V\<bar> \<le> 6 / 2 ^ 53" using binary64_step[OF 1 2] by simp
  have 3: "\<bar>binary64 v / 2 - V / 2\<bar> \<le> 3 * 1 / 2 ^ 53" using t by linarith
  have 4: "\<bar>V / 2\<bar> \<le> 1 * 1" using V by simp
  have h: "\<bar>binary64 (binary64 v / 2) - V / 2\<bar> \<le> 5 / 2 ^ 53"
    using binary64_step[OF 3 4] by simp
  have 5: "\<bar>binary64 (binary64 v / 2) * w - V / 2 * w\<bar> \<le> 5 * w / 2 ^ 53"
    using h w by (rule scale_error)
  have "\<bar>V / 2\<bar> * w \<le> 1 * w" using 4 w by (intro mult_right_mono) auto
  hence 6: "\<bar>V / 2 * w\<bar> \<le> 1 * w" using w by (simp add: abs_mult)
  show ?thesis using binary64_step[OF 5 6 w] by simp
qed

lemma lonLatToXY_fl_regional_x:
  assumes "- 180 \<le> lon" "lon \<le> 180" "0 \<le> width"
  shows "\<bar>p_x (lonLatToXY_fl binary64 lon lat width height
                (Some \<lparr>centerLon = 0, centerLat = 0, zoom = 1\<rparr>)) -
          (lon + 180) / 360 * width\<bar> \<le> 7 * width / 2 ^ 53"
proof -
  have q: "\<bar>binary64 (binary64 lon / 180) - lon / 180\<bar> \<le> 3 / 2 ^ 53"
    using assms by (intro quotient_error) auto
  hence v: "\<bar>(binary64 (binary64 lon / 180) + 1) - (lon / 180 + 1)\<bar> \<le> 3 / 2 ^ 53" by simp
  have main: "\<bar>binary64 (binary64 (binary64 (binary64 (binary64 lon / 180) + 1) / 2) * width) -
          (lon / 180 + 1) / 2 * width\<bar> \<le> 7 * width / 2 ^ 53"
    using v assms by (intro regional_tail_error) auto
  have eq: "(lon / 180 + 1) / 2 * width = (lon + 180) / 360 * width" by (simp add: field_simps)
  have px: "p_x (lonLatToXY_fl binary64 lon lat width height
                (Some \<lparr>centerLon = 0, centerLat = 0, zoom = 1\<rparr>)) =
            binary64 (binary64 (binary64 (binary64 (binary64 lon / 180) + 1) / 2) * width)"
    by (simp add: lonLatToXY_fl_def binary64_360 binary64_180)
  from main[unfolded eq] show ?thesis unfolding px .
qed

lemma lonLatToXY_fl_regional_y:
  assumes "- 90 \<le> lat" "lat \<le> 90" "0 \<le> height"
  shows "\<bar>p_y (lonLatToXY_fl binary64 lon lat width height
                (Some \<lparr>centerLon = 0, centerLat = 0, zoom = 1\<rparr>)) -
          (90 - lat) / 180 * height\<bar> \<le> 7 * height / 2 ^ 53"
proof -
  have q: "\<bar>binary64 (binary64 lat / 90) - lat / 90\<bar> \<le> 3 / 2 ^ 53"
    using assms by (intro quotient_error) auto
  hence v: "\<bar>(1 - binary64 (binary64 lat / 90)) - (1 - lat / 90)\<bar> \<le> 3 / 2 ^ 53" by linarith
  have main: "\<bar>binary64 (binary64 (binary64 (1 - binary64 (binary64 lat / 90)) / 2) * height) -
          (1 - lat / 90) / 2 * height\<bar> \<le> 7 * height / 2 ^ 53"
    using v assms by (intro regional_tail_error) auto
  have eq: "(1 - lat / 90) / 2 * height = (90 - lat) / 180 * height" by (simp add: field_simps)
  have py: "p_y (lonLatToXY_fl binary64 lon lat width height
                (Some \<lparr>centerLon = 0, centerLat = 0, zoom = 1\<rparr>)) =
            binary64 (binary64 (binary64 (1 - binary64 (binary64 lat / 90)) / 2) * height)"
    by (simp add: lonLatToXY_fl_def binary64_180 binary64_90)
  from main[unfolded eq] show ?thesis unfolding py .
qed

lemma lonLatToXY_fl_global_x:
  assumes "- 180 \<le> lon" "lon \<le> 180" "0 \<le> width"
  shows "\<bar>p_x (lonLatToXY_fl binary64 lon lat width height None) -
          (lon + 180) / 360 * width\<bar> \<le> 5 * width / 2 ^ 53"
  using global_branch_error[of "lon + 180" 360 width] assms by (simp add: lonLatToXY_fl_def)

lemma lonLatToXY_fl_global_y:
  assumes "- 90 \<le> lat" "lat \<le> 90" "0 \<le> height"
  shows "\<bar>p_y (lonLatToXY_fl binary64 lon lat width height None) -
          (90 - lat) / 180 * height\<bar> \<le> 5 * height / 2 ^ 53"
  using global_branch_error[of "90 - lat" 180 height] assms by (simp add: lonLatToXY_fl_def)


lemma tokyo_lat: "binary64 35.6762 = 5020978782062353 / 2 ^ 47"
  using binary64_eval[of "35.6762" 47] round_half_even_eq[of 5020978782062353 "35.6762 * 2 ^ 47"] by simp

text \<open>
  C10. In exact arithmetic the regional branch of \<^verbatim>\<open>lonLatToXY\<close> with the viewport
  \<^verbatim>\<open>{centerLon: 0, centerLat: 0, zoom: 1}\<close> returns the point of the global branch,
  \<open>x = (lon + 180) / 360 * width\<close> and \<open>y = (90 - lat) / 180 * height\<close>, for every coordinate
  and canvas size; and \<^const>\<open>lonLatToXY_fl\<close> without rounding is \<^const>\<open>lonLatToXY\<close>.
  In double arithmetic the two branches round different intermediate values and need not
  return the same point, but they stay close: for a longitude in \<open>[-180, 180]\<close> and a
  non-negative width the regional \<open>x\<close> is within \<open>7 * width / 2 ^ 53\<close> of the exact value
  and the global \<open>x\<close> within \<open>5 * width / 2 ^ 53\<close>, hence the two within
  \<open>12 * width / 2 ^ 53\<close> of one another; likewise for \<open>y\<close>, a latitude in \<open>[-90, 90]\<close> and
  the height.
\<close>

theorem regional_unit_viewport_near_global:
  "lonLatToXY lon lat width height (Some \<lparr>centerLon = 0, centerLat = 0, zoom = 1\<rparr>) =
     lonLatToXY lon lat width height None \<and>
   lonLatToXY lon lat width height None =
     \<lparr>p_x = (lon + 180) / 360 * width, p_y = (90 - lat) / 180 * height\<rparr> \<and>
   lonLatToXY_fl (\<lambda>x. x) lon lat width height viewport = lonLatToXY lon lat width height viewport \<and>
   (- 180 \<le> lon \<and> lon \<le> 180 \<and> 0 \<le> width \<longrightarrow>
      \<bar>p_x (lonLatToXY_fl binary64 lon lat width height
                (Some \<lparr>centerLon = 0, centerLat = 0, zoom = 1\<rparr>)) -
        (lon + 180) / 360 * width\<bar> \<le> 7 * width / 2 ^ 53 \<and>
      \<bar>p_x (lonLatToXY_fl binary64 lon lat width height None) -
        (lon + 180) / 360 * width\<bar> \<le> 5 * width / 2 ^ 53 \<and>
      \<bar>p_x (lonLatToXY_fl binary64 lon lat width height
                (Some \<lparr>centerLon = 0, centerLat = 0, zoom = 1\<rparr>)) -
        p_x (lonLatToXY_fl binary64 lon lat width height None)\<bar> \<le> 12 * width / 2 ^ 53) \<and>
   (- 90 \<le> lat \<and> lat \<le> 90 \<and> 0 \<le> height \<longrightarrow>
      \<bar>p_y (lonLatToXY_fl binary64 lon lat width height
                (Some \<lparr>centerLon = 0, centerLat = 0, zoom = 1\<rparr>)) -
        (90 - lat) / 180 * height\<bar> \<le> 7 * height / 2 ^ 53 \<and>
      \<bar>p_y (lonLatToXY_fl binary64 lon lat width height None) -
        (90 - lat) / 180 * height\<bar> \<le> 5 * height / 2 ^ 53 \<and>
      \<bar>p_y (lonLatToXY_fl binary64 lon lat width height
                (Some \<lparr>centerLon = 0, centerLat = 0, zoom = 1\<rparr>)) -
        p_y (lonLatToXY_fl binary64 lon lat width height None)\<bar> \<le> 12 * height / 2 ^ 53)"
proof (intro conjI impI)
  show "lonLatToXY lon lat width height (Some \<lparr>centerLon = 0, centerLat = 0, zoom = 1\<rparr>) =
          lonLatToXY lon lat width height None"
    by (simp add: lonLatToXY_def field_simps)
  show "lonLatToXY lon lat width height None =
          \<lparr>p_x = (lon + 180) / 360 * width, p_y = (90 - lat) / 180 * height\<rparr>"
    by (simp add: lonLatToXY_def)
  show "lonLatToXY_fl (\<lambda>x. x) lon lat width height viewport = lonLatToXY lon lat width height viewport"
    by (rule lonLatToXY_fl_exact)
next
  assume h: "- 180 \<le> lon \<and> lon \<le> 180 \<and> 0 \<le> width"
  have r: "\<bar>p_x (lonLatToXY_fl binary64 lon lat width height
                (Some \<lparr>centerLon = 0, centerLat = 0, zoom = 1\<rparr>)) -
        (lon + 180) / 360 * width\<bar> \<le> 7 * width / 2 ^ 53"
    using h by (intro lonLatToXY_fl_regional_x) auto
  have g: "\<bar>p_x (lonLatToXY_fl binary64 lon lat width height None) -
        (lon + 180) / 360 * width\<bar> \<le> 5 * width / 2 ^ 53"
    using h by (intro lonLatToXY_fl_global_x) auto
  show "\<bar>p_x (lonLatToXY_fl binary64 lon lat width height
                (Some \<lparr>centerLon = 0, centerLat = 0, zoom = 1\<rparr>)) -
        (lon + 180) / 360 * width\<bar> \<le> 7 * width / 2 ^ 53"
    by (rule r)
  show "\<bar>p_x (lonLatToXY_fl binary64 lon lat width height None) -
        (lon + 180) / 360 * width\<bar> \<le> 5 * width / 2 ^ 53"
    by (rule g)
  show "\<bar>p_x (lonLatToXY_fl binary64 lon lat width height
                (Some \<lparr>centerLon = 0, centerLat = 0, zoom = 1\<rparr>)) -
        p_x (lonLatToXY_fl binary64 lon lat width height None)\<bar> \<le> 12 * width / 2 ^ 53"
    using r g by linarith
next
  assume h: "- 90 \<le> lat \<and> lat \<le> 90 \<and> 0 \<le> height"
  have r: "\<bar>p_y (lonLatToXY_fl binary64 lon lat width height
                (Some \<lparr>centerLon = 0, centerLat = 0, zoom = 1\<rparr>)) -
        (90 - lat) / 180 * height\<bar> \<le> 7 * height / 2 ^ 53"
    using h by (intro lonLatToXY_fl_regional_y) auto
  have g: "\<bar>p_y (lonLatToXY_fl binary64 lon lat width height None) -
        (90 - lat) / 180 * height\<bar> \<le> 5 * height / 2 ^ 53"
    using h by (intro lonLatToXY_fl_global_y) auto
  show "\<bar>p_y (lonLatToXY_fl binary64 lon lat width height
                (Some \<lparr>centerLon = 0, centerLat = 0, zoom = 1\<rparr>)) -
        (90 - lat) / 180 * height\<bar> \<le> 7 * height / 2 ^ 53"
    by (rule r)
  show "\<bar>p_y (lonLatToXY_fl binary64 lon lat width height None) -
        (90 - lat) / 180 * height\<bar> \<le> 5 * height / 2 ^ 53"
    by (rule g)
  show "\<bar>p_y (lonLatToXY_fl binary64 lon lat width height
                (Some \<lparr>centerLon = 0, centerLat = 0, zoom = 1\<rparr>)) -
        p_y (lonLatToXY_fl binary64 lon lat width height None)\<bar> \<le> 12 * height / 2 ^ 53"
    using r g by linarith
qed

text \<open>
  The theorem at Tokyo, \<open>(35.6762, 139.6503)\<close> as the doubles these literals denote, on a
  canvas of \<open>1920 \<times> 1080\<close>.
\<close>

theorem regional_unit_viewport_near_global_witness:
  "(let lon = binary64 139.6503; lat = binary64 35.6762
    in \<bar>p_x (lonLatToXY_fl binary64 lon lat 1920 1080
                (Some \<lparr>centerLon = 0, centerLat = 0, zoom = 1\<rparr>)) -
         p_x (lonLatToXY_fl binary64 lon lat 1920 1080 None)\<bar> \<le> 12 * 1920 / 2 ^ 53 \<and>
       \<bar>p_y (lonLatToXY_fl binary64 lon lat 1920 1080
                (Some \<lparr>centerLon = 0, centerLat = 0, zoom = 1\<rparr>)) -
         p_y (lonLatToXY_fl binary64 lon lat 1920 1080 None)\<bar> \<le> 12 * 1080 / 2 ^ 53)"
proof -
  have x: "- 180 \<le> binary64 139.6503 \<and> binary64 139.6503 \<le> 180 \<and> (0::real) \<le> 1920"
    unfolding tokyo_lon by simp
  have y: "- 90 \<le> binary64 35.6762 \<and> binary64 35.6762 \<le> 90 \<and> (0::real) \<le> 1080"
    unfolding tokyo_lat by simp
  note h = regional_unit_viewport_near_global
    [where lon = "binary64 139.6503" and lat = "binary64 35.6762" and width = 1920
       and height = 1080 and viewport = None]
  note hx = h[THEN conjunct2, THEN conjunct2, THEN conjunct2, THEN conjunct1, THEN mp, OF x]
  note hy = h[THEN conjunct2, THEN conjunct2, THEN conjunct2, THEN conjunct2, THEN mp, OF y]
  show ?thesis
    unfolding Let_def
    using hx[THEN conjunct2, THEN conjunct2] hy[THEN conjunct2, THEN conjunct2] by (rule conjI)
qed

text \<open>
  C10 as the specification words it fails in double arithmetic. At Tokyo on a canvas
  \<open>1920\<close> wide the regional branch returns \<open>x = 1874449182251129 / 2 ^ 40\<close>, the double printed as
  \<^verbatim>\<open>1704.8015999999998\<close>, and the global branch \<open>x = 7497796729004517 / 2 ^ 42\<close>, the double
  printed as \<^verbatim>\<open>1704.8016\<close>: they differ by \<open>1 / 2 ^ 42\<close>, one unit in the last place.
\<close>

theorem regional_unit_viewport_not_global:
  "(let lon = binary64 139.6503; lat = binary64 35.6762
    in p_x (lonLatToXY_fl binary64 lon lat 1920 1080
              (Some \<lparr>centerLon = 0, centerLat = 0, zoom = 1\<rparr>)) = 1874449182251129 / 2 ^ 40 \<and>
       p_x (lonLatToXY_fl binary64 lon lat 1920 1080 None) = 7497796729004517 / 2 ^ 42 \<and>
       lonLatToXY_fl binary64 lon lat 1920 1080 (Some \<lparr>centerLon = 0, centerLat = 0, zoom = 1\<rparr>) \<noteq>
       lonLatToXY_fl binary64 lon lat 1920 1080 None)"
proof -
  have r: "p_x (lonLatToXY_fl binary64 (binary64 139.6503) (binary64 35.6762) 1920 1080
              (Some \<lparr>centerLon = 0, centerLat = 0, zoom = 1\<rparr>)) = 1874449182251129 / 2 ^ 40"
    by (rule tokyo_regional_x)
  have g: "p_x (lonLatToXY_fl binary64 (binary64 139.6503) (binary64 35.6762) 1920 1080 None) =
             7497796729004517 / 2 ^ 42"
    by (rule tokyo_global_x)
  have "p_x (lonLatToXY_fl binary64 (binary64 139.6503) (binary64 35.6762) 1920 1080
              (Some \<lparr>centerLon = 0, centerLat = 0, zoom = 1\<rparr>)) \<noteq>
        p_x (lonLatToXY_fl binary64 (binary64 139.6503) (binary64 35.6762) 1920 1080 None)"
    unfolding r g by simp
  hence "lonLatToXY_fl binary64 (binary64 139.6503) (binary64 35.6762) 1920 1080
           (Some \<lparr>centerLon = 0, centerLat = 0, zoom = 1\<rparr>) \<noteq>
         lonLatToXY_fl binary64 (binary64 139.6503) (binary64 35.6762) 1920 1080 None"
    by auto
  with r g show ?thesis unfolding Let_def by blast
qed

section \<open>Aircraft\<close>

lemma Aircraft_update_progress:
  assumes "0 < a_duration ac" and "a_path ac \<noteq> []" and "0 \<le> dt" and "0 \<le> a_progress ac"
  shows "a_progress (Aircraft_update dt ac) = frac (a_progress ac + dt / a_duration ac)"
proof -
  let ?p = "a_progress ac + dt / a_duration ac"
  have nonneg: "0 \<le> ?p" using assms by simp
  show ?thesis
  proof (cases "?p \<ge> 1")
    case True
    then show ?thesis using assms by (simp add: Aircraft_update_def Let_def frac_def)
  next
    case False
    then have "\<lfloor>?p\<rfloor> = 0" using nonneg by (simp add: floor_eq_iff)
    then show ?thesis using assms False by (simp add: Aircraft_update_def Let_def frac_def)
  qed
qed

lemma Aircraft_update_frame:
  "a_duration (Aircraft_update dt ac) = a_duration ac \<and> a_path (Aircraft_update dt ac) = a_path ac"
  by (simp add: Aircraft_update_def Let_def)

lemma Aircraft_update_range:
  assumes "0 < a_duration ac" and "a_path ac \<noteq> []" and "0 \<le> dt" and "0 \<le> a_progress ac"
  shows "0 \<le> a_progress (Aircraft_update dt ac) \<and> a_progress (Aircraft_update dt ac) < 1"
  using Aircraft_update_progress[OF assms] frac_ge_0 frac_lt_1 by simp

lemma Aircraft_run_range:
  assumes "0 < a_duration ac" and "a_path ac \<noteq> []" and "0 \<le> a_progress ac" and "a_progress ac < 1"
    and "\<forall>dt \<in> set dts. 0 \<le> dt"
  shows "0 \<le> a_progress (foldl (\<lambda>a dt. Aircraft_update dt a) ac dts) \<and>
         a_progress (foldl (\<lambda>a dt. Aircraft_update dt a) ac dts) < 1"
  using assms
proof (induction dts arbitrary: ac)
  case Nil
  then show ?case by simp
next
  case (Cons dt dts)
  have dt: "0 \<le> dt" using Cons.prems(5) by simp
  have r: "0 \<le> a_progress (Aircraft_update dt ac) \<and> a_progress (Aircraft_update dt ac) < 1"
    using Aircraft_update_range[OF Cons.prems(1,2) dt Cons.prems(3)] .
  have f: "0 < a_duration (Aircraft_update dt ac)" "a_path (Aircraft_update dt ac) \<noteq> []"
    using Cons.prems(1,2) Aircraft_update_frame[of dt ac] by simp_all
  show ?case using Cons.IH[OF f] r Cons.prems(5) by simp
qed

text \<open>
  C6. \<^const>\<open>Aircraft_update\<close> is cyclic. For an aircraft with a positive period and a
  non-empty loop path (the constructor builds 240 samples), a non-negative progress and a
  non-negative \<open>dt\<close>, the update sets the progress to the fractional part of
  \<open>progress + dt / period\<close>, which lies in \<open>[0, 1)\<close>. The update leaves the period and the
  path alone, so it can be applied again: over any sequence of non-negative \<open>dt\<close> the
  progress stays in \<open>[0, 1)\<close>, and no state is terminal. With a period of 30 seconds and
  progress 0, \<open>update(15)\<close> yields \<open>0.5\<close> and a second \<open>update(15)\<close> wraps to \<open>0\<close>.
\<close>

theorem aircraft_update_cyclic:
  "(0 < a_duration ac \<and> a_path ac \<noteq> [] \<and> 0 \<le> dt \<and> 0 \<le> a_progress ac \<longrightarrow>
      a_progress (Aircraft_update dt ac) = frac (a_progress ac + dt / a_duration ac) \<and>
      0 \<le> a_progress (Aircraft_update dt ac) \<and> a_progress (Aircraft_update dt ac) < 1) \<and>
   a_duration (Aircraft_update dt ac) = a_duration ac \<and>
   a_path (Aircraft_update dt ac) = a_path ac \<and>
   (0 < a_duration ac \<and> a_path ac \<noteq> [] \<and> 0 \<le> a_progress ac \<and> a_progress ac < 1 \<and>
    (\<forall>d \<in> set dts. 0 \<le> d) \<longrightarrow>
      0 \<le> a_progress (foldl (\<lambda>a d. Aircraft_update d a) ac dts) \<and>
      a_progress (foldl (\<lambda>a d. Aircraft_update d a) ac dts) < 1) \<and>
   (a_duration ac = 30 \<and> a_path ac \<noteq> [] \<and> a_progress ac = 0 \<longrightarrow>
      a_progress (Aircraft_update 15 ac) = 1 / 2 \<and>
      a_progress (Aircraft_update 15 (Aircraft_update 15 ac)) = 0)"
proof (intro conjI impI)
  assume h: "0 < a_duration ac \<and> a_path ac \<noteq> [] \<and> 0 \<le> dt \<and> 0 \<le> a_progress ac"
  show "a_progress (Aircraft_update dt ac) = frac (a_progress ac + dt / a_duration ac)"
    using h Aircraft_update_progress by blast
  show "0 \<le> a_progress (Aircraft_update dt ac)" using h Aircraft_update_range by blast
  show "a_progress (Aircraft_update dt ac) < 1" using h Aircraft_update_range by blast
next
  show "a_duration (Aircraft_update dt ac) = a_duration ac" by (simp add: Aircraft_update_frame)
  show "a_path (Aircraft_update dt ac) = a_path ac" by (simp add: Aircraft_update_frame)
next
  assume h: "0 < a_duration ac \<and> a_path ac \<noteq> [] \<and> 0 \<le> a_progress ac \<and> a_progress ac < 1 \<and>
    (\<forall>d \<in> set dts. 0 \<le> d)"
  show "0 \<le> a_progress (foldl (\<lambda>a d. Aircraft_update d a) ac dts)"
    using h Aircraft_run_range[of ac dts] by blast
  show "a_progress (foldl (\<lambda>a d. Aircraft_update d a) ac dts) < 1"
    using h Aircraft_run_range[of ac dts] by blast
next
  assume h: "a_duration ac = 30 \<and> a_path ac \<noteq> [] \<and> a_progress ac = 0"
  show "a_progress (Aircraft_update 15 ac) = 1 / 2" using h by (simp add: Aircraft_update_def Let_def)
  show "a_progress (Aircraft_update 15 (Aircraft_update 15 ac)) = 0"
    using h by (simp add: Aircraft_update_def Let_def)
qed

text \<open>The theorem at an aircraft with period 30 and progress 0.\<close>

theorem aircraft_update_cyclic_witness:
  "a_progress (Aircraft_update 15
     \<lparr>a_path = [\<lparr>p_x = 960, p_y = 540\<rparr>], a_color = CYAN, a_progress = 0, a_duration = 30,
      a_trailLength = 18\<rparr>) = 1 / 2 \<and>
   a_progress (Aircraft_update 15 (Aircraft_update 15
     \<lparr>a_path = [\<lparr>p_x = 960, p_y = 540\<rparr>], a_color = CYAN, a_progress = 0, a_duration = 30,
      a_trailLength = 18\<rparr>)) = 0 \<and>
   a_progress (Aircraft_update 40
     \<lparr>a_path = [\<lparr>p_x = 960, p_y = 540\<rparr>], a_color = CYAN, a_progress = 0, a_duration = 30,
      a_trailLength = 18\<rparr>) = frac (0 + 40 / 30) \<and>
   a_progress (foldl (\<lambda>a d. Aircraft_update d a)
     \<lparr>a_path = [\<lparr>p_x = 960, p_y = 540\<rparr>], a_color = CYAN, a_progress = 0, a_duration = 30,
      a_trailLength = 18\<rparr> [15, 40]) < 1"
  using aircraft_update_cyclic
    [of "\<lparr>a_path = [\<lparr>p_x = 960, p_y = 540\<rparr>], a_color = CYAN, a_progress = 0, a_duration = 30,
           a_trailLength = 18\<rparr>" 40 "[15, 40]"]
  by simp

section \<open>Missile progress\<close>

lemma Missile_update_progress:
  "m_progress (Missile_update dt m) = min 1 (m_progress m + dt / m_duration m)"
  by (simp add: Missile_update_def Let_def min_def)

lemma Missile_update_duration: "m_duration (Missile_update dt m) = m_duration m"
  by (simp add: Missile_update_def Let_def)


lemma Missile_update_le_1: "m_progress (Missile_update dt m) \<le> 1"
  by (simp add: Missile_update_progress)

lemma Missile_update_mono:
  assumes "0 < m_duration m" and "0 \<le> dt" and "m_progress m \<le> 1"
  shows "m_progress m \<le> m_progress (Missile_update dt m)"
proof -
  have "0 \<le> dt / m_duration m" using assms by simp
  then show ?thesis using assms(3) by (simp add: Missile_update_progress min_def)
qed

lemma Missile_run_bounds:
  assumes "0 < m_duration m" and "m_progress m \<le> 1" and "\<forall>dt \<in> set dts. 0 \<le> dt"
    and "s \<in> set (Missile_run m dts)"
  shows "m_progress m \<le> m_progress s \<and> m_progress s \<le> 1"
  using assms
proof (induction dts arbitrary: m)
  case Nil
  then show ?case by simp
next
  case (Cons dt dts)
  let ?m = "Missile_update dt m"
  have dt: "0 \<le> dt" using Cons.prems(3) by simp
  have step: "m_progress m \<le> m_progress ?m"
    using Missile_update_mono[OF Cons.prems(1) dt Cons.prems(2)] .
  from Cons.prems(4) have "s = ?m \<or> s \<in> set (Missile_run ?m dts)" by simp
  then show ?case
  proof
    assume "s = ?m"
    then show ?thesis using step Missile_update_le_1 by simp
  next
    assume in_rest: "s \<in> set (Missile_run ?m dts)"
    have "m_progress ?m \<le> m_progress s \<and> m_progress s \<le> 1"
      using Cons.IH[of ?m] Cons.prems(1,3) in_rest Missile_update_le_1[of dt m]
      by (simp add: Missile_update_duration)
    then show ?thesis using step by simp
  qed
qed

lemma Missile_run_sorted:
  assumes "0 < m_duration m" and "m_progress m \<le> 1" and "\<forall>dt \<in> set dts. 0 \<le> dt"
  shows "sorted (m_progress m # map m_progress (Missile_run m dts))"
  using assms
proof (induction dts arbitrary: m)
  case Nil
  then show ?case by simp
next
  case (Cons dt dts)
  let ?m = "Missile_update dt m"
  have tail: "sorted (m_progress ?m # map m_progress (Missile_run ?m dts))"
    using Cons.IH[of ?m] Cons.prems Missile_update_le_1[of dt m]
    by (simp add: Missile_update_duration)
  have "\<forall>s \<in> set (Missile_run m (dt # dts)). m_progress m \<le> m_progress s"
    using Missile_run_bounds[OF Cons.prems] by blast
  then show ?case using tail by simp
qed

lemma WMissile_update_duration: "wm_duration (WMissile_update dt m) = wm_duration m"
  by (simp add: WMissile_update_def Let_def)

lemma WMissile_update_inv:
  assumes "wm_progress m \<le> 1" and "wm_finished m \<longleftrightarrow> wm_progress m = 1"
  shows "wm_progress (WMissile_update dt m) \<le> 1 \<and>
         (wm_finished (WMissile_update dt m) \<longleftrightarrow> wm_progress (WMissile_update dt m) = 1)"
  using assms by (auto simp: WMissile_update_def Let_def)

lemma WMissile_update_mono:
  assumes "0 < wm_duration m" and "0 \<le> dt" and "wm_progress m \<le> 1"
  shows "wm_progress m \<le> wm_progress (WMissile_update dt m)"
proof -
  have "0 \<le> dt / wm_duration m" using assms by simp
  then show ?thesis using assms(3) by (simp add: WMissile_update_def Let_def)
qed

lemma WMissile_run_bounds:
  assumes "0 < wm_duration m" and "wm_progress m \<le> 1" and "wm_finished m \<longleftrightarrow> wm_progress m = 1"
    and "\<forall>dt \<in> set dts. 0 \<le> dt" and "s \<in> set (WMissile_run m dts)"
  shows "wm_progress m \<le> wm_progress s \<and> wm_progress s \<le> 1 \<and>
         (wm_finished s \<longleftrightarrow> wm_progress s = 1)"
  using assms
proof (induction dts arbitrary: m)
  case Nil
  then show ?case by simp
next
  case (Cons dt dts)
  let ?m = "WMissile_update dt m"
  have dt: "0 \<le> dt" using Cons.prems(4) by simp
  have step: "wm_progress m \<le> wm_progress ?m"
    using WMissile_update_mono[OF Cons.prems(1) dt Cons.prems(2)] .
  have inv: "wm_progress ?m \<le> 1 \<and> (wm_finished ?m \<longleftrightarrow> wm_progress ?m = 1)"
    using WMissile_update_inv[OF Cons.prems(2,3)] .
  from Cons.prems(5) have "s = ?m \<or> s \<in> set (WMissile_run ?m dts)" by simp
  then show ?case
  proof
    assume "s = ?m"
    then show ?thesis using step inv by simp
  next
    assume in_rest: "s \<in> set (WMissile_run ?m dts)"
    have "wm_progress ?m \<le> wm_progress s \<and> wm_progress s \<le> 1 \<and>
          (wm_finished s \<longleftrightarrow> wm_progress s = 1)"
      using Cons.IH[of ?m] Cons.prems(1,4) in_rest inv
      by (simp add: WMissile_update_duration)
    then show ?thesis using step by simp
  qed
qed

lemma WMissile_run_sorted:
  assumes "0 < wm_duration m" and "wm_progress m \<le> 1" and "wm_finished m \<longleftrightarrow> wm_progress m = 1"
    and "\<forall>dt \<in> set dts. 0 \<le> dt"
  shows "sorted (wm_progress m # map wm_progress (WMissile_run m dts))"
  using assms
proof (induction dts arbitrary: m)
  case Nil
  then show ?case by simp
next
  case (Cons dt dts)
  let ?m = "WMissile_update dt m"
  have inv: "wm_progress ?m \<le> 1 \<and> (wm_finished ?m \<longleftrightarrow> wm_progress ?m = 1)"
    using WMissile_update_inv[OF Cons.prems(2,3)] .
  have tail: "sorted (wm_progress ?m # map wm_progress (WMissile_run ?m dts))"
    using Cons.IH[of ?m] Cons.prems(1,4) inv by (simp add: WMissile_update_duration)
  have "\<forall>s \<in> set (WMissile_run m (dt # dts)). wm_progress m \<le> wm_progress s"
    using WMissile_run_bounds[OF Cons.prems] by blast
  then show ?case using tail by simp
qed

text \<open>
  C4. For a missile with a positive duration, \<^const>\<open>Missile_update\<close> adds \<open>dt / duration\<close> and
  clamps to \<open>1\<close>, and after any update \<^const>\<open>Missile_isFinished\<close> holds if and only if the
  progress equals \<open>1\<close>. For a missile with a positive duration and a progress of at most
  \<open>1\<close> (the constructor sets \<open>12\<close> and \<open>0\<close>) and every sequence of non-negative \<open>dt\<close>, the progress values before and after each
  update form a non-decreasing sequence, each at most \<open>1\<close>, and in each state reached
  the missile is finished if and only if its progress equals \<open>1\<close>. The same holds for the
  browser missile and its \<^verbatim>\<open>finished\<close> flag, which starts out false at progress \<open>0\<close>.
\<close>

theorem missile_progress_monotone_clamped:
  "(0 < m_duration m \<longrightarrow>
      m_progress (Missile_update dt m) = min 1 (m_progress m + dt / m_duration m) \<and>
      (Missile_isFinished (Missile_update dt m) \<longleftrightarrow> m_progress (Missile_update dt m) = 1)) \<and>
   (0 < m_duration m \<and> m_progress m \<le> 1 \<and> (\<forall>d \<in> set dts. 0 \<le> d) \<longrightarrow>
      sorted (m_progress m # map m_progress (Missile_run m dts)) \<and>
      (\<forall>s \<in> set (Missile_run m dts).
         m_progress s \<le> 1 \<and> (Missile_isFinished s \<longleftrightarrow> m_progress s = 1))) \<and>
   (0 < wm_duration w \<and> wm_progress w \<le> 1 \<and> (wm_finished w \<longleftrightarrow> wm_progress w = 1) \<and>
    (\<forall>d \<in> set dts. 0 \<le> d) \<longrightarrow>
      sorted (wm_progress w # map wm_progress (WMissile_run w dts)) \<and>
      (\<forall>s \<in> set (WMissile_run w dts).
         wm_progress s \<le> 1 \<and> (wm_finished s \<longleftrightarrow> wm_progress s = 1)))"
proof (intro conjI impI ballI)
  assume "0 < m_duration m"
  show "m_progress (Missile_update dt m) = min 1 (m_progress m + dt / m_duration m)"
    by (rule Missile_update_progress)
  show "Missile_isFinished (Missile_update dt m) \<longleftrightarrow> m_progress (Missile_update dt m) = 1"
    using Missile_update_le_1[of dt m] by (auto simp: Missile_isFinished_def)
next
  assume h: "0 < m_duration m \<and> m_progress m \<le> 1 \<and> (\<forall>d \<in> set dts. 0 \<le> d)"
  show "sorted (m_progress m # map m_progress (Missile_run m dts))"
    using h Missile_run_sorted[of m dts] by blast
  fix s assume s: "s \<in> set (Missile_run m dts)"
  have b: "m_progress m \<le> m_progress s \<and> m_progress s \<le> 1"
    using h s Missile_run_bounds[of m dts s] by blast
  show "m_progress s \<le> 1" using b by simp
  show "Missile_isFinished s \<longleftrightarrow> m_progress s = 1"
    using b by (auto simp: Missile_isFinished_def)
next
  assume h: "0 < wm_duration w \<and> wm_progress w \<le> 1 \<and> (wm_finished w \<longleftrightarrow> wm_progress w = 1) \<and>
    (\<forall>d \<in> set dts. 0 \<le> d)"
  show "sorted (wm_progress w # map wm_progress (WMissile_run w dts))"
    using h WMissile_run_sorted[of w dts] by blast
  fix s assume s: "s \<in> set (WMissile_run w dts)"
  have b: "wm_progress w \<le> wm_progress s \<and> wm_progress s \<le> 1 \<and>
           (wm_finished s \<longleftrightarrow> wm_progress s = 1)"
    using h s WMissile_run_bounds[of w dts s] by blast
  show "wm_progress s \<le> 1" using b by simp
  show "wm_finished s \<longleftrightarrow> wm_progress s = 1" using b by simp
qed

text \<open>
  The theorem at freshly constructed missiles (duration 12) and the updates 6, 3, 6: the
  progress runs 0.5, 0.75, 1, and only the last state is finished.
\<close>

theorem missile_progress_monotone_clamped_witness:
  "map m_progress (Missile_run (Missile_ctor [] \<lparr>ll_lat = 0, ll_lon = 0\<rparr> CYAN) [6, 3, 6]) =
     [1 / 2, 3 / 4, 1] \<and>
   map Missile_isFinished (Missile_run (Missile_ctor [] \<lparr>ll_lat = 0, ll_lon = 0\<rparr> CYAN) [6, 3, 6]) =
     [False, False, True] \<and>
   sorted (m_progress (Missile_ctor [] \<lparr>ll_lat = 0, ll_lon = 0\<rparr> CYAN) #
     map m_progress (Missile_run (Missile_ctor [] \<lparr>ll_lat = 0, ll_lon = 0\<rparr> CYAN) [6, 3, 6])) \<and>
   map wm_progress (WMissile_run
     (WMissile_ctor \<lparr>ll_lat = 0, ll_lon = 0\<rparr> \<lparr>ll_lat = 10, ll_lon = 10\<rparr> 12 []) [6, 3, 6, 6]) =
     [1 / 2, 3 / 4, 1, 1] \<and>
   map wm_finished (WMissile_run
     (WMissile_ctor \<lparr>ll_lat = 0, ll_lon = 0\<rparr> \<lparr>ll_lat = 10, ll_lon = 10\<rparr> 12 []) [6, 3, 6, 6]) =
     [False, False, True, True]"
  using missile_progress_monotone_clamped
    [where dt = 6 and m = "Missile_ctor [] \<lparr>ll_lat = 0, ll_lon = 0\<rparr> CYAN" and dts = "[6, 3, 6]"
       and w = "WMissile_ctor \<lparr>ll_lat = 0, ll_lon = 0\<rparr> \<lparr>ll_lat = 10, ll_lon = 10\<rparr> 12 []"]
  by (simp add: Missile_ctor_def WMissile_ctor_def Missile_update_def WMissile_update_def
        Missile_isFinished_def Let_def)

section \<open>Layered glow drawing\<close>

lemma glow_loop_length:
  "- 1 \<le> i \<Longrightarrow> length (glow_loop prim color layers i) = nat (i + 1)"
proof (induction prim color layers i rule: glow_loop.induct)
  case (1 prim color layers i)
  show ?case
  proof (cases "i \<ge> 0")
    case True
    then have "length (glow_loop prim color layers (i - 1)) = nat i"
      using "1.IH" by simp
    then show ?thesis using True by (subst glow_loop.simps) (simp add: Let_def nat_add_distrib)
  next
    case False
    then show ?thesis using "1.prems" by (subst glow_loop.simps) simp
  qed
qed

lemma glow_loop_nth:
  "k < nat (i + 1) \<Longrightarrow>
   glow_loop prim color layers i ! k =
     prim \<lparr>c_r = c_r color, c_g = c_g color, c_b = c_b color,
           c_a = c_a color * (if i - int k = 0 then 1 else 0.3 / real_of_int layers)\<rparr>
          (1 + real_of_int (layers - (i - int k)) * 0.8)"
proof (induction prim color layers i arbitrary: k rule: glow_loop.induct)
  case (1 prim color layers i)
  have pos: "i \<ge> 0" using "1.prems" by simp
  show ?case
  proof (cases k)
    case 0
    then show ?thesis using pos by (subst glow_loop.simps) (simp add: Let_def)
  next
    case (Suc j)
    then have j: "j < nat (i - 1 + 1)" using "1.prems" by simp
    have "glow_loop prim color layers (i - 1) ! j =
            prim \<lparr>c_r = c_r color, c_g = c_g color, c_b = c_b color,
                  c_a = c_a color * (if i - 1 - int j = 0 then 1 else 0.3 / real_of_int layers)\<rparr>
                 (1 + real_of_int (layers - (i - 1 - int j)) * 0.8)"
      using "1.IH"[OF pos refl refl refl j] .
    moreover have "i - 1 - int j = i - int k" using Suc by simp
    ultimately show ?thesis using pos Suc by (subst glow_loop.simps) (simp add: Let_def)
  qed
qed

lemma glow_loop_last:
  assumes "0 < layers"
  shows "last (glow_loop prim color layers (layers - 1)) =
           prim \<lparr>c_r = c_r color, c_g = c_g color, c_b = c_b color, c_a = c_a color * 1\<rparr>
                (1 + real_of_int layers * 0.8)"
proof -
  let ?xs = "glow_loop prim color layers (layers - 1)"
  have len: "length ?xs = nat layers" using assms glow_loop_length[of "layers - 1"] by simp
  then have ne: "?xs \<noteq> []" using assms by auto
  have k: "nat layers - 1 < nat (layers - 1 + 1)" using assms by simp
  have idx: "layers - 1 - int (nat layers - 1) = 0" using assms by simp
  have "last ?xs = ?xs ! (nat layers - 1)" using ne len by (simp add: last_conv_nth)
  also have "\<dots> = prim \<lparr>c_r = c_r color, c_g = c_g color, c_b = c_b color, c_a = c_a color * 1\<rparr>
                (1 + real_of_int layers * 0.8)"
    unfolding glow_loop_nth[OF k] idx by simp
  finally show ?thesis .
qed

text \<open>
  C7. Each of \<^const>\<open>drawLineWithGlow\<close>, \<^const>\<open>drawCircleWithGlow\<close> and
  \<^const>\<open>drawPathWithGlow\<close>, called with a layer count \<open>layers \<ge> 0\<close>, issues exactly \<open>layers\<close>
  calls of its primitive. The \<open>k\<close>-th call in issue order is the loop iteration
  \<open>i = layers - 1 - k\<close>, so \<open>i\<close> runs from \<open>layers - 1\<close> down to \<open>0\<close>; it has the arguments of
  the call unchanged, the colour \<open>(color.rgb, color.a * alpha)\<close> with \<open>alpha = 1\<close> when
  \<open>i = 0\<close> and \<open>0.3 / layers\<close> otherwise, and the width \<open>1 + (layers - i) * 0.8\<close>. No width
  exceeds \<open>1 + layers * 0.8\<close>, and only the iteration \<open>i = 0\<close> attains it: the widest layer
  is the one of full alpha, and it is the last call.
\<close>

theorem glow_draw_layers:
  "0 \<le> layers \<longrightarrow>
     length (drawLineWithGlow x1 y1 x2 y2 color layers) = nat layers \<and>
     length (drawCircleWithGlow x y radius color layers) = nat layers \<and>
     length (drawPathWithGlow points color layers) = nat layers \<and>
     (\<forall>k. k < nat layers \<longrightarrow>
        (let i = layers - 1 - int k;
             alpha = (if i = 0 then 1 else 0.3 / real_of_int layers);
             width = 1 + real_of_int (layers - i) * 0.8;
             layerColor = \<lparr>c_r = c_r color, c_g = c_g color, c_b = c_b color,
                            c_a = c_a color * alpha\<rparr>
         in drawLineWithGlow x1 y1 x2 y2 color layers ! k = DrawLine x1 y1 x2 y2 layerColor width \<and>
            drawCircleWithGlow x y radius color layers ! k = DrawCircle x y radius layerColor width \<and>
            drawPathWithGlow points color layers ! k = DrawPath points layerColor width \<and>
            width \<le> 1 + real_of_int layers * 0.8 \<and>
            (width = 1 + real_of_int layers * 0.8 \<longleftrightarrow> i = 0))) \<and>
     (0 < layers \<longrightarrow>
        last (drawLineWithGlow x1 y1 x2 y2 color layers) =
          DrawLine x1 y1 x2 y2
            \<lparr>c_r = c_r color, c_g = c_g color, c_b = c_b color, c_a = c_a color * 1\<rparr>
            (1 + real_of_int layers * 0.8) \<and>
        last (drawCircleWithGlow x y radius color layers) =
          DrawCircle x y radius
            \<lparr>c_r = c_r color, c_g = c_g color, c_b = c_b color, c_a = c_a color * 1\<rparr>
            (1 + real_of_int layers * 0.8) \<and>
        last (drawPathWithGlow points color layers) =
          DrawPath points
            \<lparr>c_r = c_r color, c_g = c_g color, c_b = c_b color, c_a = c_a color * 1\<rparr>
            (1 + real_of_int layers * 0.8))"
proof (intro impI conjI allI)
  assume nn: "0 \<le> layers"
  show "length (drawLineWithGlow x1 y1 x2 y2 color layers) = nat layers"
    using nn glow_loop_length[of "layers - 1"] by (simp add: drawLineWithGlow_def)
  show "length (drawCircleWithGlow x y radius color layers) = nat layers"
    using nn glow_loop_length[of "layers - 1"] by (simp add: drawCircleWithGlow_def)
  show "length (drawPathWithGlow points color layers) = nat layers"
    using nn glow_loop_length[of "layers - 1"] by (simp add: drawPathWithGlow_def)
next
  fix k
  assume nn: "0 \<le> layers" and k: "k < nat layers"
  define i where "i = layers - 1 - int k"
  have k': "k < nat (layers - 1 + 1)" using k by simp
  have i: "0 \<le> i" unfolding i_def using k by linarith
  have w1: "1 + real_of_int (layers - i) * 0.8 \<le> 1 + real_of_int layers * 0.8"
    using i by simp
  have w2: "(1 + real_of_int (layers - i) * 0.8 = 1 + real_of_int layers * 0.8) \<longleftrightarrow> i = 0"
    by simp
  have l: "drawLineWithGlow x1 y1 x2 y2 color layers ! k =
      DrawLine x1 y1 x2 y2
        \<lparr>c_r = c_r color, c_g = c_g color, c_b = c_b color,
           c_a = c_a color * (if i = 0 then 1 else 0.3 / real_of_int layers)\<rparr>
        (1 + real_of_int (layers - i) * 0.8)"
    unfolding drawLineWithGlow_def i_def by (rule glow_loop_nth[OF k'])
  have c: "drawCircleWithGlow x y radius color layers ! k =
      DrawCircle x y radius
        \<lparr>c_r = c_r color, c_g = c_g color, c_b = c_b color,
           c_a = c_a color * (if i = 0 then 1 else 0.3 / real_of_int layers)\<rparr>
        (1 + real_of_int (layers - i) * 0.8)"
    unfolding drawCircleWithGlow_def i_def by (rule glow_loop_nth[OF k'])
  have p: "drawPathWithGlow points color layers ! k =
      DrawPath points
        \<lparr>c_r = c_r color, c_g = c_g color, c_b = c_b color,
           c_a = c_a color * (if i = 0 then 1 else 0.3 / real_of_int layers)\<rparr>
        (1 + real_of_int (layers - i) * 0.8)"
    unfolding drawPathWithGlow_def i_def by (rule glow_loop_nth[OF k'])
  show "let i = layers - 1 - int k;
             alpha = (if i = 0 then 1 else 0.3 / real_of_int layers);
             width = 1 + real_of_int (layers - i) * 0.8;
             layerColor = \<lparr>c_r = c_r color, c_g = c_g color, c_b = c_b color,
                            c_a = c_a color * alpha\<rparr>
         in drawLineWithGlow x1 y1 x2 y2 color layers ! k = DrawLine x1 y1 x2 y2 layerColor width \<and>
            drawCircleWithGlow x y radius color layers ! k = DrawCircle x y radius layerColor width \<and>
            drawPathWithGlow points color layers ! k = DrawPath points layerColor width \<and>
            width \<le> 1 + real_of_int layers * 0.8 \<and>
            (width = 1 + real_of_int layers * 0.8 \<longleftrightarrow> i = 0)"
    unfolding Let_def i_def[symmetric] using l c p w1 w2 by blast
next
  assume nn: "0 \<le> layers" and pos: "0 < layers"
  show "last (drawLineWithGlow x1 y1 x2 y2 color layers) =
          DrawLine x1 y1 x2 y2
            \<lparr>c_r = c_r color, c_g = c_g color, c_b = c_b color, c_a = c_a color * 1\<rparr>
            (1 + real_of_int layers * 0.8)"
    unfolding drawLineWithGlow_def by (rule glow_loop_last[OF pos])
  show "last (drawCircleWithGlow x y radius color layers) =
          DrawCircle x y radius
            \<lparr>c_r = c_r color, c_g = c_g color, c_b = c_b color, c_a = c_a color * 1\<rparr>
            (1 + real_of_int layers * 0.8)"
    unfolding drawCircleWithGlow_def by (rule glow_loop_last[OF pos])
  show "last (drawPathWithGlow points color layers) =
          DrawPath points
            \<lparr>c_r = c_r color, c_g = c_g color, c_b = c_b color, c_a = c_a color * 1\<rparr>
            (1 + real_of_int layers * 0.8)"
    unfolding drawPathWithGlow_def by (rule glow_loop_last[OF pos])
qed



text \<open>The three iterations of the loop for \<open>layers = 3\<close>, unfolded.\<close>

lemma glow_loop_3:
  "glow_loop prim color 3 2 =
     [prim \<lparr>c_r = c_r color, c_g = c_g color, c_b = c_b color, c_a = c_a color * (0.3 / 3)\<rparr> (1 + 1 * 0.8),
      prim \<lparr>c_r = c_r color, c_g = c_g color, c_b = c_b color, c_a = c_a color * (0.3 / 3)\<rparr> (1 + 2 * 0.8),
      prim \<lparr>c_r = c_r color, c_g = c_g color, c_b = c_b color, c_a = c_a color * 1\<rparr> (1 + 3 * 0.8)]"
proof -
  have e: "glow_loop prim color 3 (- 1) = []" by (subst glow_loop.simps) simp
  have 0: "glow_loop prim color 3 0 =
     [prim \<lparr>c_r = c_r color, c_g = c_g color, c_b = c_b color, c_a = c_a color * 1\<rparr> (1 + 3 * 0.8)]"
    by (subst glow_loop.simps) (simp add: Let_def e)
  have 1: "glow_loop prim color 3 1 =
     prim \<lparr>c_r = c_r color, c_g = c_g color, c_b = c_b color, c_a = c_a color * (0.3 / 3)\<rparr> (1 + 2 * 0.8) #
     glow_loop prim color 3 0"
    by (subst glow_loop.simps) (simp add: Let_def)
  have 2: "glow_loop prim color 3 2 =
     prim \<lparr>c_r = c_r color, c_g = c_g color, c_b = c_b color, c_a = c_a color * (0.3 / 3)\<rparr> (1 + 1 * 0.8) #
     glow_loop prim color 3 1"
    by (subst glow_loop.simps) (simp add: Let_def)
  show ?thesis unfolding 2 1 0 by simp
qed

text \<open>The theorem at three layers: widths 1.8, 2.6, 3.4, the last with the full alpha.\<close>

theorem glow_draw_layers_witness:
  "drawLineWithGlow 0 0 10 10 CYAN 3 =
     [DrawLine 0 0 10 10 \<lparr>c_r = 0, c_g = 1, c_b = 1, c_a = 1 / 10\<rparr> (9 / 5),
      DrawLine 0 0 10 10 \<lparr>c_r = 0, c_g = 1, c_b = 1, c_a = 1 / 10\<rparr> (13 / 5),
      DrawLine 0 0 10 10 \<lparr>c_r = 0, c_g = 1, c_b = 1, c_a = 1\<rparr> (17 / 5)] \<and>
   length (drawCircleWithGlow 5 5 2 CYAN 3) = 3 \<and>
   last (drawPathWithGlow [\<lparr>p_x = 0, p_y = 0\<rparr>, \<lparr>p_x = 1, p_y = 1\<rparr>] CYAN 3) =
     DrawPath [\<lparr>p_x = 0, p_y = 0\<rparr>, \<lparr>p_x = 1, p_y = 1\<rparr>] \<lparr>c_r = 0, c_g = 1, c_b = 1, c_a = 1\<rparr> (17 / 5)"
proof -
  have l: "drawLineWithGlow 0 0 10 10 CYAN 3 =
     [DrawLine 0 0 10 10 \<lparr>c_r = 0, c_g = 1, c_b = 1, c_a = 1 / 10\<rparr> (9 / 5),
      DrawLine 0 0 10 10 \<lparr>c_r = 0, c_g = 1, c_b = 1, c_a = 1 / 10\<rparr> (13 / 5),
      DrawLine 0 0 10 10 \<lparr>c_r = 0, c_g = 1, c_b = 1, c_a = 1\<rparr> (17 / 5)]"
    by (simp add: drawLineWithGlow_def glow_loop_3 CYAN_def)
  have h: "(0::int) \<le> 3" "(0::int) < 3" by simp_all
  show ?thesis
    using l h glow_draw_layers
      [of 3 0 0 10 10 CYAN 5 5 2 "[\<lparr>p_x = 0, p_y = 0\<rparr>, \<lparr>p_x = 1, p_y = 1\<rparr>]"]
    by (simp add: CYAN_def)
qed

section \<open>The composite pass\<close>

text \<open>
  C8, as the code has it. For every pixel \<open>uv\<close> the composite shader computes, on each of
  the red, green and blue components,
  \<open>((scene + bloom * bloomIntensity) * (0.5 + 0.5 * scanline) * vignette
      + noise * noiseIntensity) * flicker\<close>
  with \<open>noise = rand(uv + time)\<close> and
  \<open>flicker = 1 + sin(t * 120) * flickerIntensity + 0.5 * sin(t * 67) * flickerIntensity\<close>.
  The scanline texture is blended at half strength, \<^verbatim>\<open>mix(vec4(1.0), scanline, 0.5)\<close>: the
  formula of the specification holds with that blend as its mask, not with the scanline
  sample itself. The alpha component receives neither noise nor flicker.
\<close>

theorem composite_formula:
  "(let scene = screenTexture uv; bloom = bloomTexture uv; scan = scanlineTexture uv;
        vig = vignetteTexture uv;
        noise = rand (fst uv + time, snd uv + time);
        flicker = 1 + sin (time * 120) * flickerIntensity
                    + 0.5 * sin (time * 67) * flickerIntensity;
        out = composite_main screenTexture bloomTexture scanlineTexture vignetteTexture
                noiseIntensity bloomIntensity flickerIntensity time uv
    in v_r out = ((v_r scene + v_r bloom * bloomIntensity) * (0.5 + 0.5 * v_r scan) * v_r vig
                    + noise * noiseIntensity) * flicker \<and>
       v_g out = ((v_g scene + v_g bloom * bloomIntensity) * (0.5 + 0.5 * v_g scan) * v_g vig
                    + noise * noiseIntensity) * flicker \<and>
       v_b out = ((v_b scene + v_b bloom * bloomIntensity) * (0.5 + 0.5 * v_b scan) * v_b vig
                    + noise * noiseIntensity) * flicker \<and>
       v_a out = (v_a scene + v_a bloom * bloomIntensity) * (0.5 + 0.5 * v_a scan) * v_a vig \<and>
       v_r out = composite_spec (v_r scene) (v_r bloom) bloomIntensity (mix 1 (v_r scan) 0.5)
                   (v_r vig) noise noiseIntensity flickerIntensity time \<and>
       v_g out = composite_spec (v_g scene) (v_g bloom) bloomIntensity (mix 1 (v_g scan) 0.5)
                   (v_g vig) noise noiseIntensity flickerIntensity time \<and>
       v_b out = composite_spec (v_b scene) (v_b bloom) bloomIntensity (mix 1 (v_b scan) 0.5)
                   (v_b vig) noise noiseIntensity flickerIntensity time)"
  by (simp add: composite_main_def composite_spec_def mix_def Let_def mult.commute)

text \<open>
  C8 as worded, with the scanline sample as a pure multiplier, fails on a white scene
  with no bloom, no noise and no flicker on a darkened scanline row (sample \<open>200 / 255\<close>):
  the shader writes \<open>91 / 102\<close>, the formula gives \<open>40 / 51\<close>.
\<close>

theorem composite_formula_counterexample:
  "v_r (composite_main (\<lambda>uv. \<lparr>v_r = 1, v_g = 1, v_b = 1, v_a = 1\<rparr>)
          (\<lambda>uv. \<lparr>v_r = 0, v_g = 0, v_b = 0, v_a = 0\<rparr>)
          (\<lambda>uv. \<lparr>v_r = 200 / 255, v_g = 200 / 255, v_b = 200 / 255, v_a = 1\<rparr>)
          (\<lambda>uv. \<lparr>v_r = 1, v_g = 1, v_b = 1, v_a = 1\<rparr>)
          0 0 0 0 (0, 0)) = 91 / 102 \<and>
   composite_spec 1 0 0 (200 / 255) 1 (rand (0, 0)) 0 0 0 = 40 / 51 \<and>
   v_r (composite_main (\<lambda>uv. \<lparr>v_r = 1, v_g = 1, v_b = 1, v_a = 1\<rparr>)
          (\<lambda>uv. \<lparr>v_r = 0, v_g = 0, v_b = 0, v_a = 0\<rparr>)
          (\<lambda>uv. \<lparr>v_r = 200 / 255, v_g = 200 / 255, v_b = 200 / 255, v_a = 1\<rparr>)
          (\<lambda>uv. \<lparr>v_r = 1, v_g = 1, v_b = 1, v_a = 1\<rparr>)
          0 0 0 0 (0, 0)) \<noteq>
     composite_spec 1 0 0 (200 / 255) 1 (rand (0, 0)) 0 0 0"
  by (simp add: composite_main_def composite_spec_def mix_def Let_def)

text \<open>The theorem at the same pixel.\<close>

theorem composite_formula_witness:
  "v_r (composite_main (\<lambda>uv. \<lparr>v_r = 1, v_g = 1, v_b = 1, v_a = 1\<rparr>)
          (\<lambda>uv. \<lparr>v_r = 0, v_g = 0, v_b = 0, v_a = 0\<rparr>)
          (\<lambda>uv. \<lparr>v_r = 200 / 255, v_g = 200 / 255, v_b = 200 / 255, v_a = 1\<rparr>)
          (\<lambda>uv. \<lparr>v_r = 1, v_g = 1, v_b = 1, v_a = 1\<rparr>)
          0 0 0 0 (0, 0)) = (1 + 0 * 0) * (0.5 + 0.5 * (200 / 255)) * 1"
  using composite_formula
    [of "\<lambda>uv. \<lparr>v_r = 1, v_g = 1, v_b = 1, v_a = 1\<rparr>" "(0, 0)"
        "\<lambda>uv. \<lparr>v_r = 0, v_g = 0, v_b = 0, v_a = 0\<rparr>"
        "\<lambda>uv. \<lparr>v_r = 200 / 255, v_g = 200 / 255, v_b = 200 / 255, v_a = 1\<rparr>"
        "\<lambda>uv. \<lparr>v_r = 1, v_g = 1, v_b = 1, v_a = 1\<rparr>" 0 0 0 0]
  by (simp add: Let_def)

section \<open>Explosion rings\<close>

lemma drawCircleWithGlow_4_nonempty: "drawCircleWithGlow x y radius color 4 \<noteq> []"
  unfolding drawCircleWithGlow_def by (subst glow_loop.simps) (simp add: Let_def)

lemma ring_draw_visible:
  assumes "RING_DELAYS ! (NUM_RINGS - 1) < e_duration e"
  shows "ring_draw e i \<noteq> [] \<longleftrightarrow>
           0 \<le> e_age e - RING_DELAYS ! i \<and>
           e_age e - RING_DELAYS ! i \<le> e_duration e - RING_DELAYS ! (NUM_RINGS - 1)"
proof -
  let ?d = "e_duration e - RING_DELAYS ! (NUM_RINGS - 1)"
  have pos: "0 < ?d" using assms by simp
  have "(e_age e - RING_DELAYS ! i) / ?d > 1 \<longleftrightarrow> e_age e - RING_DELAYS ! i > ?d"
    using pos by (simp add: field_simps)
  then show ?thesis
    using drawCircleWithGlow_4_nonempty by (auto simp: ring_draw_def Let_def)
qed

lemma ring_render_visible:
  "ring_render centerPos elapsed duration ring \<noteq> [] \<longleftrightarrow>
     0 \<le> elapsed - ring_delay ring \<and> elapsed - ring_delay ring \<le> duration - ring_delay ring"
  by (auto simp: ring_render_def Let_def)

text \<open>
  C2, as the code has it. In the C++ \<^verbatim>\<open>Explosion::draw\<close> every ring expands for the same
  time \<^verbatim>\<open>ringDuration = m_duration - RING_DELAYS[NUM_RINGS - 1]\<close> (\<open>2.5 - 0.9\<close> for every
  explosion the constructor builds, and no method changes the duration): ring \<open>i\<close> is drawn
  at age \<open>age\<close> if and only if \<open>0 \<le> age - delay_i \<le> duration - delay_last\<close>, where
  \<open>delay_last\<close> is the delay of the last ring. In the browser \<^verbatim>\<open>Explosion.render\<close> a ring is
  drawn if and only if \<open>0 \<le> elapsed - delay \<le> duration - delay\<close>, provided the explosion
  lies in the viewport (nothing is drawn otherwise). \<^const>\<open>Explosion_isFinished\<close> holds if
  and only if \<open>age \<ge> duration\<close>.
\<close>

theorem explosion_ring_visibility:
  "(RING_DELAYS ! (NUM_RINGS - 1) < e_duration e \<and> i < NUM_RINGS \<longrightarrow>
      (ring_draw e i \<noteq> [] \<longleftrightarrow>
         0 \<le> e_age e - RING_DELAYS ! i \<and>
         e_age e - RING_DELAYS ! i \<le> e_duration e - RING_DELAYS ! (NUM_RINGS - 1))) \<and>
   (ring_render centerPos elapsed duration ring \<noteq> [] \<longleftrightarrow>
      0 \<le> elapsed - ring_delay ring \<and> elapsed - ring_delay ring \<le> duration - ring_delay ring) \<and>
   Explosion_draw e =
     concat (map (ring_draw e) [0..<NUM_RINGS]) @
     (if e_age e < 0.5
      then drawCircleWithGlow (e_x e) (e_y e) (5 + e_age e * 10)
             \<lparr>c_r = c_r (e_color e), c_g = c_g (e_color e), c_b = c_b (e_color e),
                c_a = 1 - e_age e / 0.5\<rparr> 5
      else []) \<and>
   WExplosion_render w width height currentTime viewport =
     (if isInViewport (we_lon w) (we_lat w) viewport
      then concat (map (ring_render (lonLatToXY (we_lon w) (we_lat w) width height viewport)
                          (currentTime - we_startTime w) (we_duration w)) (we_rings w))
      else []) \<and>
   (Explosion_isFinished e \<longleftrightarrow> e_age e \<ge> e_duration e) \<and>
   e_duration (Explosion_ctor x y color) = 2.5 \<and>
   e_duration (Explosion_update dt e) = e_duration e \<and>
   RING_DELAYS ! (NUM_RINGS - 1) = 0.9"
proof (intro conjI impI)
  assume "RING_DELAYS ! (NUM_RINGS - 1) < e_duration e \<and> i < NUM_RINGS"
  then have "RING_DELAYS ! (NUM_RINGS - 1) < e_duration e" by simp
  then show "ring_draw e i \<noteq> [] \<longleftrightarrow>
         0 \<le> e_age e - RING_DELAYS ! i \<and>
         e_age e - RING_DELAYS ! i \<le> e_duration e - RING_DELAYS ! (NUM_RINGS - 1)"
    by (rule ring_draw_visible)
next
  show "ring_render centerPos elapsed duration ring \<noteq> [] \<longleftrightarrow>
      0 \<le> elapsed - ring_delay ring \<and> elapsed - ring_delay ring \<le> duration - ring_delay ring"
    by (rule ring_render_visible)
  show "Explosion_draw e =
     concat (map (ring_draw e) [0..<NUM_RINGS]) @
     (if e_age e < 0.5
      then drawCircleWithGlow (e_x e) (e_y e) (5 + e_age e * 10)
             \<lparr>c_r = c_r (e_color e), c_g = c_g (e_color e), c_b = c_b (e_color e),
                c_a = 1 - e_age e / 0.5\<rparr> 5
      else [])"
    by (simp add: Explosion_draw_def Let_def)
  show "WExplosion_render w width height currentTime viewport =
     (if isInViewport (we_lon w) (we_lat w) viewport
      then concat (map (ring_render (lonLatToXY (we_lon w) (we_lat w) width height viewport)
                          (currentTime - we_startTime w) (we_duration w)) (we_rings w))
      else [])"
    by (cases viewport) (simp_all add: WExplosion_render_def isInViewport_def Let_def)
  show "Explosion_isFinished e \<longleftrightarrow> e_age e \<ge> e_duration e"
    by (simp add: Explosion_isFinished_def)
  show "e_duration (Explosion_ctor x y color) = 2.5" by (simp add: Explosion_ctor_def)
  show "e_duration (Explosion_update dt e) = e_duration e" by (simp add: Explosion_update_def)
  show "RING_DELAYS ! (NUM_RINGS - 1) = 0.9" by (simp add: RING_DELAYS_def NUM_RINGS_def)
qed

text \<open>
  C2 as worded fails in the C++ code for the first ring (delay \<open>0\<close>) of an explosion of
  age \<open>2\<close>: \<open>0 \<le> 2 - 0 \<le> 2.5 - 0\<close>, the explosion is not finished, and the ring is not
  drawn, since \<open>2 / 1.6 > 1\<close>.
\<close>

theorem explosion_ring_visibility_counterexample:
  "0 \<le> e_age (Explosion_update 2 (Explosion_ctor 100 100 CYAN)) - RING_DELAYS ! 0 \<and>
   e_age (Explosion_update 2 (Explosion_ctor 100 100 CYAN)) - RING_DELAYS ! 0
     \<le> e_duration (Explosion_update 2 (Explosion_ctor 100 100 CYAN)) - RING_DELAYS ! 0 \<and>
   ring_draw (Explosion_update 2 (Explosion_ctor 100 100 CYAN)) 0 = [] \<and>
   \<not> Explosion_isFinished (Explosion_update 2 (Explosion_ctor 100 100 CYAN))"
  by (simp add: ring_draw_def Explosion_update_def Explosion_ctor_def Explosion_isFinished_def
        RING_DELAYS_def NUM_RINGS_def Let_def)

text \<open>
  The theorem at age \<open>1\<close> (rings 1 and 3 are drawn), at age \<open>2\<close> (ring 0 is not drawn in
  C++) and for the browser ring of delay \<open>0\<close> at elapsed time \<open>2\<close> (drawn).
\<close>

theorem explosion_ring_visibility_witness:
  "ring_draw (Explosion_update 1 (Explosion_ctor 100 100 CYAN)) 1 \<noteq> [] \<and>
   ring_draw (Explosion_update 1 (Explosion_ctor 100 100 CYAN)) 3 \<noteq> [] \<and>
   ring_draw (Explosion_update 2 (Explosion_ctor 100 100 CYAN)) 0 = [] \<and>
   ring_render \<lparr>p_x = 0, p_y = 0\<rparr> 2 2.5 \<lparr>ring_delay = 0.0, ring_maxRadius = 80\<rparr> \<noteq> []"
  using explosion_ring_visibility [of "Explosion_update 1 (Explosion_ctor 100 100 CYAN)" 1]
    explosion_ring_visibility [of "Explosion_update 1 (Explosion_ctor 100 100 CYAN)" 3]
    explosion_ring_visibility [of "Explosion_update 2 (Explosion_ctor 100 100 CYAN)" 0
      "\<lparr>p_x = 0, p_y = 0\<rparr>" 2 "2.5" "\<lparr>ring_delay = 0.0, ring_maxRadius = 80\<rparr>"]
  by (simp add: Explosion_update_def Explosion_ctor_def RING_DELAYS_def NUM_RINGS_def)

section \<open>Geodesic path sampling\<close>

lemma abs_scale:
  fixes a c e :: real
  assumes "0 \<le> c" and "\<bar>a\<bar> \<le> e"
  shows "\<bar>a * c\<bar> \<le> e * c"
proof -
  have "\<bar>a * c\<bar> = \<bar>a\<bar> * c" using assms(1) by (simp add: abs_mult)
  then show ?thesis using assms by (simp add: mult_right_mono)
qed

lemma lonlat_to_xy_close:
  assumes "\<bar>lat1 - lat2\<bar> \<le> eps" and "\<bar>lon1 - lon2\<bar> \<le> eps"
  shows "\<bar>p_x (lonlat_to_xy lon1 lat1 SCREEN_WIDTH SCREEN_HEIGHT) -
           p_x (lonlat_to_xy lon2 lat2 SCREEN_WIDTH SCREEN_HEIGHT)\<bar> \<le> eps * 1920 / 360 \<and>
         \<bar>p_y (lonlat_to_xy lon1 lat1 SCREEN_WIDTH SCREEN_HEIGHT) -
           p_y (lonlat_to_xy lon2 lat2 SCREEN_WIDTH SCREEN_HEIGHT)\<bar> \<le> eps * 1080 / 180"
proof -
  have x: "p_x (lonlat_to_xy lon1 lat1 SCREEN_WIDTH SCREEN_HEIGHT) -
           p_x (lonlat_to_xy lon2 lat2 SCREEN_WIDTH SCREEN_HEIGHT) = (lon1 - lon2) * (16 / 3)"
    by (simp add: lonlat_to_xy_def SCREEN_WIDTH_def field_simps)
  have y: "p_y (lonlat_to_xy lon1 lat1 SCREEN_WIDTH SCREEN_HEIGHT) -
           p_y (lonlat_to_xy lon2 lat2 SCREEN_WIDTH SCREEN_HEIGHT) = (lat2 - lat1) * 6"
    by (simp add: lonlat_to_xy_def SCREEN_HEIGHT_def field_simps)
  have l: "\<bar>lat2 - lat1\<bar> \<le> eps" using assms(1) by (simp add: abs_minus_commute)
  have "\<bar>(lon1 - lon2) * (16 / 3)\<bar> \<le> eps * (16 / 3)" by (rule abs_scale) (use assms(2) in simp_all)
  moreover have "\<bar>(lat2 - lat1) * 6\<bar> \<le> eps * 6" by (rule abs_scale) (use l in simp_all)
  ultimately show ?thesis unfolding x y by simp
qed

lemma calculatePath_Inr:
  assumes "2 \<le> samples" and "geodInverse start endp = (s12, azi1)"
  shows "calculatePath geodInverse linePosition start endp samples =
           Inr (map (\<lambda>i. lonlat_to_xy
                            (ll_lon (linePosition start azi1 (real i / real_of_int (samples - 1) * s12)))
                            (ll_lat (linePosition start azi1 (real i / real_of_int (samples - 1) * s12)))
                            SCREEN_WIDTH SCREEN_HEIGHT)
                    [0..<nat samples])"
  using assms by (simp add: calculatePath_def Let_def)

text \<open>
  C5, as the code has it. For every start, end and \<open>samples \<ge> 2\<close>, \<^const>\<open>calculatePath\<close>
  returns a path of exactly \<open>samples\<close> screen points; the \<open>i\<close>-th is the projection
  (\<^const>\<open>lonlat_to_xy\<close> on the 1920 by 1080 screen) of the geodesic position at the distance
  \<open>t * s12\<close> with \<open>t = i / (samples - 1)\<close>, where \<open>(s12, azi1)\<close> is what the library's inverse
  problem returns for start and end. So the first point is the projection of the
  library's position at distance \<open>0\<close> and the last that of its position at distance
  \<open>s12\<close>; whenever the library returns these within \<open>eps\<close> degrees of start and of end,
  the first and the last point lie within \<open>eps * 1920 / 360\<close> pixels in \<open>x\<close> and
  \<open>eps * 1080 / 180\<close> pixels in \<open>y\<close> of the projections of start and of end. (The browser
  missile takes its path from \<^verbatim>\<open>turf.greatCircle\<close> as it comes.)
\<close>

theorem computePath_samples:
  "2 \<le> samples \<and> geodInverse start endp = (s12, azi1) \<longrightarrow>
     (\<exists>path. calculatePath geodInverse linePosition start endp samples = Inr path \<and>
        length path = nat samples \<and>
        (\<forall>i. i < nat samples \<longrightarrow>
           path ! i =
             lonlat_to_xy
               (ll_lon (linePosition start azi1 (real i / real_of_int (samples - 1) * s12)))
               (ll_lat (linePosition start azi1 (real i / real_of_int (samples - 1) * s12)))
               SCREEN_WIDTH SCREEN_HEIGHT) \<and>
        hd path = lonlat_to_xy (ll_lon (linePosition start azi1 0))
                    (ll_lat (linePosition start azi1 0)) SCREEN_WIDTH SCREEN_HEIGHT \<and>
        last path = lonlat_to_xy (ll_lon (linePosition start azi1 s12))
                      (ll_lat (linePosition start azi1 s12)) SCREEN_WIDTH SCREEN_HEIGHT \<and>
        (\<bar>ll_lat (linePosition start azi1 0) - ll_lat start\<bar> \<le> eps \<and>
         \<bar>ll_lon (linePosition start azi1 0) - ll_lon start\<bar> \<le> eps \<longrightarrow>
           \<bar>p_x (hd path) -
              p_x (lonlat_to_xy (ll_lon start) (ll_lat start) SCREEN_WIDTH SCREEN_HEIGHT)\<bar>
             \<le> eps * 1920 / 360 \<and>
           \<bar>p_y (hd path) -
              p_y (lonlat_to_xy (ll_lon start) (ll_lat start) SCREEN_WIDTH SCREEN_HEIGHT)\<bar>
             \<le> eps * 1080 / 180) \<and>
        (\<bar>ll_lat (linePosition start azi1 s12) - ll_lat endp\<bar> \<le> eps \<and>
         \<bar>ll_lon (linePosition start azi1 s12) - ll_lon endp\<bar> \<le> eps \<longrightarrow>
           \<bar>p_x (last path) -
              p_x (lonlat_to_xy (ll_lon endp) (ll_lat endp) SCREEN_WIDTH SCREEN_HEIGHT)\<bar>
             \<le> eps * 1920 / 360 \<and>
           \<bar>p_y (last path) -
              p_y (lonlat_to_xy (ll_lon endp) (ll_lat endp) SCREEN_WIDTH SCREEN_HEIGHT)\<bar>
             \<le> eps * 1080 / 180))"
proof
  assume h: "2 \<le> samples \<and> geodInverse start endp = (s12, azi1)"
  define f where "f = (\<lambda>i. lonlat_to_xy
      (ll_lon (linePosition start azi1 (real i / real_of_int (samples - 1) * s12)))
      (ll_lat (linePosition start azi1 (real i / real_of_int (samples - 1) * s12)))
      SCREEN_WIDTH SCREEN_HEIGHT)"
  define path where "path = map f [0..<nat samples]"
  have n: "2 \<le> nat samples" using h by linarith
  have ne: "[0..<nat samples] \<noteq> []" using n by simp
  have eq: "calculatePath geodInverse linePosition start endp samples = Inr path"
    unfolding path_def f_def using h calculatePath_Inr by blast
  have len: "length path = nat samples" by (simp add: path_def)
  have nth: "\<forall>i. i < nat samples \<longrightarrow> path ! i = f i" by (simp add: path_def)
  have "hd path = f (hd [0..<nat samples])" unfolding path_def using ne by (simp add: hd_map)
  then have "hd path = f 0" using n by simp
  then have hd: "hd path = lonlat_to_xy (ll_lon (linePosition start azi1 0))
                    (ll_lat (linePosition start azi1 0)) SCREEN_WIDTH SCREEN_HEIGHT"
    by (simp add: f_def)
  have "last path = f (last [0..<nat samples])" unfolding path_def using ne by (simp add: last_map)
  then have "last path = f (nat samples - 1)" using n by simp
  moreover have "real (nat samples - 1) / real_of_int (samples - 1) = 1"
  proof -
    have "nat samples - 1 = nat (samples - 1)" using h by linarith
    moreover have "real (nat (samples - 1)) = real_of_int (samples - 1)" using h by simp
    ultimately have "real (nat samples - 1) = real_of_int (samples - 1)" by simp
    moreover have "real_of_int (samples - 1) \<noteq> 0" using h by simp
    ultimately show ?thesis by simp
  qed
  ultimately have last: "last path = lonlat_to_xy (ll_lon (linePosition start azi1 s12))
                      (ll_lat (linePosition start azi1 s12)) SCREEN_WIDTH SCREEN_HEIGHT"
    by (simp add: f_def)
  have c1: "\<bar>ll_lat (linePosition start azi1 0) - ll_lat start\<bar> \<le> eps \<and>
         \<bar>ll_lon (linePosition start azi1 0) - ll_lon start\<bar> \<le> eps \<longrightarrow>
           \<bar>p_x (hd path) -
              p_x (lonlat_to_xy (ll_lon start) (ll_lat start) SCREEN_WIDTH SCREEN_HEIGHT)\<bar>
             \<le> eps * 1920 / 360 \<and>
           \<bar>p_y (hd path) -
              p_y (lonlat_to_xy (ll_lon start) (ll_lat start) SCREEN_WIDTH SCREEN_HEIGHT)\<bar>
             \<le> eps * 1080 / 180"
    unfolding hd using lonlat_to_xy_close by blast
  have c2: "\<bar>ll_lat (linePosition start azi1 s12) - ll_lat endp\<bar> \<le> eps \<and>
         \<bar>ll_lon (linePosition start azi1 s12) - ll_lon endp\<bar> \<le> eps \<longrightarrow>
           \<bar>p_x (last path) -
              p_x (lonlat_to_xy (ll_lon endp) (ll_lat endp) SCREEN_WIDTH SCREEN_HEIGHT)\<bar>
             \<le> eps * 1920 / 360 \<and>
           \<bar>p_y (last path) -
              p_y (lonlat_to_xy (ll_lon endp) (ll_lat endp) SCREEN_WIDTH SCREEN_HEIGHT)\<bar>
             \<le> eps * 1080 / 180"
    unfolding last using lonlat_to_xy_close by blast
  show "\<exists>path. calculatePath geodInverse linePosition start endp samples = Inr path \<and>
        length path = nat samples \<and>
        (\<forall>i. i < nat samples \<longrightarrow>
           path ! i =
             lonlat_to_xy
               (ll_lon (linePosition start azi1 (real i / real_of_int (samples - 1) * s12)))
               (ll_lat (linePosition start azi1 (real i / real_of_int (samples - 1) * s12)))
               SCREEN_WIDTH SCREEN_HEIGHT) \<and>
        hd path = lonlat_to_xy (ll_lon (linePosition start azi1 0))
                    (ll_lat (linePosition start azi1 0)) SCREEN_WIDTH SCREEN_HEIGHT \<and>
        last path = lonlat_to_xy (ll_lon (linePosition start azi1 s12))
                      (ll_lat (linePosition start azi1 s12)) SCREEN_WIDTH SCREEN_HEIGHT \<and>
        (\<bar>ll_lat (linePosition start azi1 0) - ll_lat start\<bar> \<le> eps \<and>
         \<bar>ll_lon (linePosition start azi1 0) - ll_lon start\<bar> \<le> eps \<longrightarrow>
           \<bar>p_x (hd path) -
              p_x (lonlat_to_xy (ll_lon start) (ll_lat start) SCREEN_WIDTH SCREEN_HEIGHT)\<bar>
             \<le> eps * 1920 / 360 \<and>
           \<bar>p_y (hd path) -
              p_y (lonlat_to_xy (ll_lon start) (ll_lat start) SCREEN_WIDTH SCREEN_HEIGHT)\<bar>
             \<le> eps * 1080 / 180) \<and>
        (\<bar>ll_lat (linePosition start azi1 s12) - ll_lat endp\<bar> \<le> eps \<and>
         \<bar>ll_lon (linePosition start azi1 s12) - ll_lon endp\<bar> \<le> eps \<longrightarrow>
           \<bar>p_x (last path) -
              p_x (lonlat_to_xy (ll_lon endp) (ll_lat endp) SCREEN_WIDTH SCREEN_HEIGHT)\<bar>
             \<le> eps * 1920 / 360 \<and>
           \<bar>p_y (last path) -
              p_y (lonlat_to_xy (ll_lon endp) (ll_lat endp) SCREEN_WIDTH SCREEN_HEIGHT)\<bar>
             \<le> eps * 1080 / 180)"
    using eq len nth[unfolded f_def] hd last c1 c2 by blast
qed

text \<open>
  C5 as worded, for all \<open>numSamples\<close>, fails at \<open>0\<close> and at \<open>1\<close>, whatever the library does
  (here a library that walks east along the equator): with no samples the path is empty
  and has neither a first nor a last element; with one sample the only step is
  \<^verbatim>\<open>0.0 / 0\<close>.
\<close>

theorem computePath_samples_counterexample:
  "calculatePath (\<lambda>s e. (10, 0))
     (\<lambda>s azi d. \<lparr>ll_lat = ll_lat s, ll_lon = ll_lon s + d\<rparr>)
     \<lparr>ll_lat = 0, ll_lon = 0\<rparr> \<lparr>ll_lat = 0, ll_lon = 10\<rparr> 0 = Inr [] \<and>
   calculatePath (\<lambda>s e. (10, 0))
     (\<lambda>s azi d. \<lparr>ll_lat = ll_lat s, ll_lon = ll_lon s + d\<rparr>)
     \<lparr>ll_lat = 0, ll_lon = 0\<rparr> \<lparr>ll_lat = 0, ll_lon = 10\<rparr> 1 = Inl NotANumber"
  by (simp add: calculatePath_def)

text \<open>
  The theorem at three samples from \<open>(0, 0)\<close> to \<open>(0, 10)\<close> with that library: the path runs
  from the projection of the start to the projection of the end.
\<close>

theorem computePath_samples_witness:
  "calculatePath (\<lambda>s e. (10, 0))
     (\<lambda>s azi d. \<lparr>ll_lat = ll_lat s, ll_lon = ll_lon s + d\<rparr>)
     \<lparr>ll_lat = 0, ll_lon = 0\<rparr> \<lparr>ll_lat = 0, ll_lon = 10\<rparr> 3 =
     Inr [\<lparr>p_x = 960, p_y = 540\<rparr>, \<lparr>p_x = 2960 / 3, p_y = 540\<rparr>, \<lparr>p_x = 3040 / 3, p_y = 540\<rparr>] \<and>
   lonlat_to_xy 0 0 SCREEN_WIDTH SCREEN_HEIGHT = \<lparr>p_x = 960, p_y = 540\<rparr> \<and>
   lonlat_to_xy 10 0 SCREEN_WIDTH SCREEN_HEIGHT = \<lparr>p_x = 3040 / 3, p_y = 540\<rparr>"
proof -
  have u: "[0..<3] = [0, 1, 2]" by code_simp
  have h: "(2::int) \<le> 3 \<and>
     (\<lambda>s e. (10::real, 0::real)) \<lparr>ll_lat = 0, ll_lon = 0\<rparr> \<lparr>ll_lat = 0, ll_lon = 10\<rparr> = (10, 0)"
    by simp
  show ?thesis
    using h computePath_samples
      [of 3 "\<lambda>s e. (10, 0)" "\<lparr>ll_lat = 0, ll_lon = 0\<rparr>" "\<lparr>ll_lat = 0, ll_lon = 10\<rparr>" 10 0
          "\<lambda>s azi d. \<lparr>ll_lat = ll_lat s, ll_lon = ll_lon s + d\<rparr>" 0]
    by (simp add: calculatePath_def u lonlat_to_xy_def SCREEN_WIDTH_def SCREEN_HEIGHT_def)
qed

section \<open>The handoff from a finished missile to its explosion\<close>








lemma WMissile_update_target: "wm_target (WMissile_update dt m) = wm_target m"
  by (simp add: WMissile_update_def Let_def)
































end
